theory Spec2Isabelle
  imports Complex_Main
begin

section \<open>JavaScript errors\<close>

text \<open>
  The exceptions the modelled code can throw. A result of type \<open>js_error + 'a\<close> is
  \<open>Inl\<close> when the JavaScript function throws and \<open>Inr\<close> when it returns.
  \<^item> \<open>ReferenceError x\<close>: the identifier \<open>x\<close> is read but bound nowhere in scope;
  \<^item> \<open>TypeError\<close>: a property of \<open>undefined\<close> is read or written;
  \<^item> \<open>SingularMatrix\<close>: mathjs refuses to invert a matrix whose determinant is zero.
\<close>

datatype js_error = ReferenceError string | TypeError | SingularMatrix

section \<open>Matrices\<close>

text \<open>
  A \<open>worldMatrix\<close> is a 3x3 mathjs matrix; \<open>mij\<close> is \<open>M.valueOf()[i][j]\<close>.
  JavaScript numbers are modelled as real numbers (no rounding, no NaN, no infinities).
\<close>

datatype mat3 = Mat3 (m00: real) (m01: real) (m02: real)
                     (m10: real) (m11: real) (m12: real)
                     (m20: real) (m21: real) (m22: real)

type_synonym vec2 = "real \<times> real"

definition identity3 :: mat3 where
  "identity3 = Mat3 1 0 0  0 1 0  0 0 1"

definition mat_mul :: "mat3 \<Rightarrow> mat3 \<Rightarrow> mat3" where
  "mat_mul A B = Mat3
     (m00 A * m00 B + m01 A * m10 B + m02 A * m20 B)
     (m00 A * m01 B + m01 A * m11 B + m02 A * m21 B)
     (m00 A * m02 B + m01 A * m12 B + m02 A * m22 B)
     (m10 A * m00 B + m11 A * m10 B + m12 A * m20 B)
     (m10 A * m01 B + m11 A * m11 B + m12 A * m21 B)
     (m10 A * m02 B + m11 A * m12 B + m12 A * m22 B)
     (m20 A * m00 B + m21 A * m10 B + m22 A * m20 B)
     (m20 A * m01 B + m21 A * m11 B + m22 A * m21 B)
     (m20 A * m02 B + m21 A * m12 B + m22 A * m22 B)"

definition det3 :: "mat3 \<Rightarrow> real" where
  "det3 A = m00 A * (m11 A * m22 A - m12 A * m21 A)
          - m01 A * (m10 A * m22 A - m12 A * m20 A)
          + m02 A * (m10 A * m21 A - m11 A * m20 A)"

text \<open>\<open>math.inv\<close>: the adjugate over the determinant; it throws on a singular matrix.\<close>

definition mat_inv :: "mat3 \<Rightarrow> js_error + mat3" where
  "mat_inv A =
     (let d = det3 A in
      if d = 0 then Inl SingularMatrix
      else Inr (Mat3
        ((m11 A * m22 A - m12 A * m21 A) / d)
        ((m02 A * m21 A - m01 A * m22 A) / d)
        ((m01 A * m12 A - m02 A * m11 A) / d)
        ((m12 A * m20 A - m10 A * m22 A) / d)
        ((m00 A * m22 A - m02 A * m20 A) / d)
        ((m02 A * m10 A - m00 A * m12 A) / d)
        ((m10 A * m21 A - m11 A * m20 A) / d)
        ((m01 A * m20 A - m00 A * m21 A) / d)
        ((m00 A * m11 A - m01 A * m10 A) / d)))"

text \<open>A matrix is affine when its last row is \<open>[0, 0, 1]\<close>, as in every matrix literal of the source.\<close>

definition affine :: "mat3 \<Rightarrow> bool" where
  "affine A = (m20 A = 0 \<and> m21 A = 0 \<and> m22 A = 1)"

section \<open>The scene tree\<close>

text \<open>
  The unist nodes of the state tree (README, "The State"). Optional fields are options;
  the flags \<open>selected\<close> and \<open>active\<close> are only ever tested for truthiness, so an
  absent flag is \<open>False\<close>.
\<close>

datatype node_type = in_edge_node | out_edge_node

record edge_data =
  eclickBox :: "real list"
  parentKey :: int
  linkedTo :: "int option"
  to :: "vec2 option"

record edge_node =
  etype :: node_type
  ekey :: "int option"
  eworldMatrix :: mat3
  edata :: edge_data

record node_data =
  clickBox :: "real list"
  title :: string
  selected :: bool
  active :: bool

record graph_node =
  gkey :: int
  gworldMatrix :: mat3
  gdata :: node_data
  gchildren :: "edge_node list"

record plane =
  pworldMatrix :: mat3
  pchildren :: "graph_node list"

record window_frame =
  wworldMatrix :: mat3
  wplane :: plane

record root =
  canvas :: string
  width :: "real option"
  height :: "real option"
  rwindow :: window_frame

section \<open>Frame algebra (package @mvarble/frames.js)\<close>

text \<open>
  The functions \<open>vecFrameTrans\<close>, \<open>translatedFrame\<close>, \<open>scaledFrame\<close> and
  \<open>withWorldMatrix\<close> are imported from the external package @mvarble/frames.js; its source
  is not in this repository, so they are modelled from the spec's section on the frame
  algebra. The code of this repository stores in every node its \<open>worldMatrix\<close>, the matrix
  from the node's frame to canvas coordinates: the canvas frame is
  \<open>{ worldMatrix: math.identity(3) }\<close>, \<open>appendNode\<close> places the anchors of a new node at
  the window's canvas position, and \<open>renderEdgeNode\<close> paints an anchor at the translation
  entries of its own \<open>worldMatrix\<close>. A frame operation returns a copy of the node, sharing
  no object with its argument ("all operations return new nodes; no in-place mutation"),
  whose world matrix is transformed; the same transformation is applied to every
  descendant, so that each child keeps its matrix relative to its parent ("recursively
  leaves children's local matrices untouched").
\<close>

text \<open>
  Modelled from the spec: a frame operation on an edge node (no children) composes the
  transformation \<open>T\<close>, given in canvas coordinates, with the node's world matrix.
\<close>

definition transform_edge :: "mat3 \<Rightarrow> edge_node \<Rightarrow> edge_node" where
  "transform_edge T e = e\<lparr>eworldMatrix := mat_mul T (eworldMatrix e)\<rparr>"

text \<open>
  Modelled from the spec: a frame operation on a graph node transforms the node and its
  edge nodes alike.
\<close>

definition transform_node :: "mat3 \<Rightarrow> graph_node \<Rightarrow> graph_node" where
  "transform_node T n =
     n\<lparr>gworldMatrix := mat_mul T (gworldMatrix n),
       gchildren := map (transform_edge T) (gchildren n)\<rparr>"

text \<open>
  Modelled from the spec: a frame operation on the plane transforms the plane and its graph
  nodes alike.
\<close>

definition transform_plane :: "mat3 \<Rightarrow> plane \<Rightarrow> plane" where
  "transform_plane T p =
     p\<lparr>pworldMatrix := mat_mul T (pworldMatrix p),
       pchildren := map (transform_node T) (pchildren p)\<rparr>"

text \<open>
  Modelled from the spec: \<open>vecFrameTrans(v, fromFrame, toFrame)\<close>, the spec's
  \<open>transform_vector\<close>, converts a direction by \<open>toFrame\<inverse> \<sqdot> fromFrame\<close>, ignoring the
  translation. The frames are given by their world matrices.
\<close>

definition vecFrameTrans :: "vec2 \<Rightarrow> mat3 \<Rightarrow> mat3 \<Rightarrow> js_error + vec2" where
  "vecFrameTrans v fromM toM =
     (case mat_inv toM of
        Inl err \<Rightarrow> Inl err
      | Inr ti \<Rightarrow>
          (let C = mat_mul ti fromM in
           Inr (m00 C * fst v + m01 C * snd v, m10 C * fst v + m11 C * snd v)))"

text \<open>
  Modelled from the spec: the translation by \<open>delta\<close>, a vector of the reference frame
  with world matrix \<open>R\<close>, as a matrix in canvas coordinates: the linear part of \<open>R\<close>
  applied to \<open>delta\<close>.
\<close>

definition translation :: "vec2 \<Rightarrow> mat3 \<Rightarrow> mat3" where
  "translation delta R =
     Mat3 1 0 (m00 R * fst delta + m01 R * snd delta)
          0 1 (m10 R * fst delta + m11 R * snd delta)
          0 0 1"

text \<open>
  Modelled from the spec: \<open>translatedFrame(node, delta, referenceFrame)\<close>, the spec's
  \<open>translated\<close>, for an edge node: the node's matrix composed with the translation,
  "leaving rotation/scale unchanged".
\<close>

definition translatedFrame_edge :: "edge_node \<Rightarrow> vec2 \<Rightarrow> mat3 \<Rightarrow> edge_node" where
  "translatedFrame_edge e delta R = transform_edge (translation delta R) e"

text \<open>Modelled from the spec: \<open>translatedFrame\<close> for a graph node.\<close>

definition translatedFrame_node :: "graph_node \<Rightarrow> vec2 \<Rightarrow> mat3 \<Rightarrow> graph_node" where
  "translatedFrame_node n delta R = transform_node (translation delta R) n"

text \<open>Modelled from the spec: \<open>translatedFrame\<close> for the plane.\<close>

definition translatedFrame_plane :: "plane \<Rightarrow> vec2 \<Rightarrow> mat3 \<Rightarrow> plane" where
  "translatedFrame_plane p delta R = transform_plane (translation delta R) p"

text \<open>
  Modelled from the spec: the scaling by \<open>factors\<close> "about the origin of pivotFrame", as a
  matrix in canvas coordinates: \<open>P \<sqdot> diag(sx, sy, 1) \<sqdot> P\<inverse>\<close> for the pivot frame's world
  matrix \<open>P\<close>.
\<close>

definition scaling :: "vec2 \<Rightarrow> mat3 \<Rightarrow> js_error + mat3" where
  "scaling factors P =
     (case mat_inv P of
        Inl err \<Rightarrow> Inl err
      | Inr pinv \<Rightarrow>
          Inr (mat_mul P (mat_mul (Mat3 (fst factors) 0 0  0 (snd factors) 0  0 0 1) pinv)))"

text \<open>
  Modelled from the spec: \<open>scaledFrame(node, factors, pivotFrame)\<close>, the spec's \<open>scaled\<close>,
  for the plane.
\<close>

definition scaledFrame_plane :: "plane \<Rightarrow> vec2 \<Rightarrow> mat3 \<Rightarrow> js_error + plane" where
  "scaledFrame_plane p factors P =
     (case scaling factors P of
        Inl err \<Rightarrow> Inl err
      | Inr T \<Rightarrow> Inr (transform_plane T p))"

text \<open>
  Modelled from the spec: \<open>withWorldMatrix(frame, M)\<close> for the window. The spec names its
  effect only ("recomputes the Window matrix on container resize"): the result is a copy of
  the frame whose world matrix is \<open>M\<close>, and its descendants follow by \<open>M \<sqdot> old\<inverse>\<close>, keeping
  their matrices relative to the frame as under every frame operation.
\<close>

definition withWorldMatrix_window :: "window_frame \<Rightarrow> mat3 \<Rightarrow> js_error + window_frame" where
  "withWorldMatrix_window w M =
     (case mat_inv (wworldMatrix w) of
        Inl err \<Rightarrow> Inl err
      | Inr winv \<Rightarrow>
          Inr (w\<lparr>wworldMatrix := M,
                 wplane := transform_plane (mat_mul M winv) (wplane w)\<rparr>))"

section \<open>Reducer composition (utilities.js)\<close>

text \<open>\<open>Array.prototype.findIndex\<close>: the first position whose element passes, or \<open>-1\<close>.\<close>

fun findIndex :: "('a \<Rightarrow> bool) \<Rightarrow> 'a list \<Rightarrow> int" where
  "findIndex P [] = -1"
| "findIndex P (x # xs) =
     (if P x then 0 else (let i = findIndex P xs in if i < 0 then -1 else i + 1))"

text \<open>
  \<open>liftReducer\<close>'s \<open>lift\<close>: a keyed reducer \<open>{ key, reducer }\<close> becomes a reducer of the
  parent. The parent is copied, its children array is copied, and the first child whose
  key is \<open>key\<close> is replaced by the reducer's result; a reducer that throws makes the lifted
  reducer throw. \<open>lift_children\<close> is the part on the children array; \<open>lift_plane\<close> is the
  instance GraphPlane uses (children are graph nodes) and \<open>lift_node\<close> the one GraphNode
  uses (children are edge nodes, the key of an in-edge-node being \<open>undefined\<close>).
\<close>

definition lift_children ::
  "('c \<Rightarrow> 'k) \<Rightarrow> 'k \<Rightarrow> ('c \<Rightarrow> js_error + 'c) \<Rightarrow> 'c list \<Rightarrow> js_error + 'c list" where
  "lift_children key_of key reducer children =
     (let index = findIndex (\<lambda>c. key_of c = key) children in
      if index \<ge> 0 then
        (case reducer (children ! nat index) of
           Inl err \<Rightarrow> Inl err
         | Inr c \<Rightarrow> Inr (children[nat index := c]))
      else Inr children)"

definition lift_plane :: "int \<Rightarrow> (graph_node \<Rightarrow> js_error + graph_node) \<Rightarrow> plane \<Rightarrow> js_error + plane" where
  "lift_plane key reducer tree =
     (case lift_children gkey key reducer (pchildren tree) of
        Inl err \<Rightarrow> Inl err
      | Inr cs \<Rightarrow> Inr (tree\<lparr>pchildren := cs\<rparr>))"

definition lift_node ::
  "int option \<Rightarrow> (edge_node \<Rightarrow> js_error + edge_node) \<Rightarrow> graph_node \<Rightarrow> js_error + graph_node" where
  "lift_node key reducer tree =
     (case lift_children ekey key reducer (gchildren tree) of
        Inl err \<Rightarrow> Inl err
      | Inr cs \<Rightarrow> Inr (tree\<lparr>gchildren := cs\<rparr>))"

section \<open>Node state management (graph-node.js)\<close>

text \<open>
  The values \<open>selectNode\<close> and \<open>deselectNode\<close> return: a copy of the node whose data
  has both flags set, respectively cleared.
\<close>

definition selectNode :: "graph_node \<Rightarrow> graph_node" where
  "selectNode node = node\<lparr>gdata := (gdata node)\<lparr>selected := True, active := True\<rparr>\<rparr>"

definition deselectNode :: "graph_node \<Rightarrow> graph_node" where
  "deselectNode node = node\<lparr>gdata := (gdata node)\<lparr>selected := False, active := False\<rparr>\<rparr>"

text \<open>\<open>moveTop(key)\<close>: the first child with the key moves to the front of the children.\<close>

definition moveTop :: "int \<Rightarrow> plane \<Rightarrow> plane" where
  "moveTop key parent =
     (let index = findIndex (\<lambda>c. gkey c = key) (pchildren parent) in
      if index \<ge> 0 then
        parent\<lparr>pchildren :=
          (pchildren parent ! nat index)
            # take (nat index) (pchildren parent)
            @ drop (nat index + 1) (pchildren parent)\<rparr>
      else parent)"

definition makeActive :: "int \<Rightarrow> plane \<Rightarrow> plane" where
  "makeActive key parent =
     (let parentCopy = moveTop key parent;
          L = length (pchildren parentCopy) in
      if L \<noteq> 0 \<and> gkey (pchildren parentCopy ! 0) = key then
        parentCopy\<lparr>pchildren :=
          selectNode (pchildren parentCopy ! 0)
            # map (\<lambda>c. c\<lparr>gdata := (gdata c)\<lparr>active := False\<rparr>\<rparr>) (drop 1 (pchildren parentCopy))\<rparr>
      else parentCopy)"

definition makeOnlySelected :: "int \<Rightarrow> plane \<Rightarrow> plane" where
  "makeOnlySelected key parent =
     (let parentCopy = moveTop key parent;
          L = length (pchildren parentCopy) in
      if L \<noteq> 0 \<and> gkey (pchildren parentCopy ! 0) = key then
        parentCopy\<lparr>pchildren :=
          selectNode (pchildren parentCopy ! 0)
            # map deselectNode (drop 1 (pchildren parentCopy))\<rparr>
      else parentCopy)"

definition movedNode :: "graph_node \<Rightarrow> real \<Rightarrow> real \<Rightarrow> graph_node" where
  "movedNode node dx dy = translatedFrame_node node (dx, dy) identity3"

definition dragNodes :: "real \<Rightarrow> real \<Rightarrow> plane \<Rightarrow> plane" where
  "dragNodes movementX movementY parent =
     parent\<lparr>pchildren :=
       map (\<lambda>node. if selected (gdata node) then movedNode node movementX movementY else node)
         (pchildren parent)\<rparr>"

section \<open>Edge state management (graph-edge.js)\<close>

text \<open>
  \<open>updateEdgeNode\<close>: a copy of the edge node with a new data object, linked to the parent
  of the hovered node (or not linked) and ending at \<open>position\<close>.
\<close>

definition updateEdgeNode :: "edge_node \<Rightarrow> edge_node option \<Rightarrow> vec2 option \<Rightarrow> edge_node" where
  "updateEdgeNode edgeNode hoveredNode position =
     edgeNode\<lparr>edata := (edata edgeNode)
       \<lparr>linkedTo := (case hoveredNode of None \<Rightarrow> None | Some h \<Rightarrow> Some (parentKey (edata h))),
        to := position\<rparr>\<rparr>"

text \<open>
  The self reducer GraphEdge emits when the drag is released:
  \<open>e => { const eCopy = updateEdgeNode(e, hoveredNode, position); eCopy.data.to = undefined; return eCopy; }\<close>.
\<close>

definition finalizeEdgeNode :: "edge_node \<Rightarrow> edge_node option \<Rightarrow> vec2 option \<Rightarrow> edge_node" where
  "finalizeEdgeNode e hoveredNode position =
     (let eCopy = updateEdgeNode e hoveredNode position in
      eCopy\<lparr>edata := (edata eCopy)\<lparr>to := None\<rparr>\<rparr>)"

text \<open>\<open>arr.map((e, i) => f(e, i))\<close>.\<close>

definition mapi :: "(nat \<Rightarrow> 'a \<Rightarrow> 'b) \<Rightarrow> 'a list \<Rightarrow> 'b list" where
  "mapi f xs = map (\<lambda>(i, e). f i e) (enumerate 0 xs)"

text \<open>\<open>math.max\<close> of a non-empty array.\<close>

fun list_max :: "int list \<Rightarrow> int" where
  "list_max [] = 0"
| "list_max (x # xs) = fold max xs x"

text \<open>
  \<open>addEdgeNode\<close>. With no children, \<open>nodeCopy.children[np1-1]\<close> is \<open>undefined\<close> and
  reading its fields throws. The new edge is a copy of the last child, moved right by
  \<open>2/(np1(np1+1))\<close> in the node's frame, unlinked, with a fresh key; child \<open>i\<close> moves
  left by \<open>2i/(np1(np1+1))\<close> when it is an out-edge-node.
\<close>

definition addEdgeNode :: "graph_node \<Rightarrow> js_error + graph_node" where
  "addEdgeNode node =
     (let np1 = length (gchildren node) in
      if np1 = 0 then Inl TypeError
      else
        (let newEdge0 = translatedFrame_edge (gchildren node ! (np1 - 1))
                          (2 / (real np1 * (real np1 + 1)), 0) (gworldMatrix node);
             newEdge1 = newEdge0\<lparr>edata := (edata newEdge0)\<lparr>linkedTo := None\<rparr>\<rparr>;
             newEdge = newEdge1\<lparr>ekey :=
               Some (list_max (map (\<lambda>e. case ekey e of None \<Rightarrow> 0 | Some k \<Rightarrow> k) (gchildren node)) + 1)\<rparr>
         in Inr (node\<lparr>gchildren :=
               mapi (\<lambda>i e. if etype e = out_edge_node
                            then translatedFrame_edge e
                                   (- 2 * real i / (real np1 * (real np1 + 1)), 0) (gworldMatrix node)
                            else e) (gchildren node)
               @ [newEdge]\<rparr>)))"

text \<open>
  \<open>removeEdgeNode\<close>. The children before \<open>index\<close> move right by \<open>2k/(np1(np1-1))\<close>
  when they are out-edge-nodes; every child after \<open>index\<close> moves left, whatever its type.
  \<open>updateGraphNode\<close> calls it with \<open>index < np1 - 1\<close> only, so the divisor is not zero.
\<close>

definition removeEdgeNode :: "graph_node \<Rightarrow> nat \<Rightarrow> graph_node" where
  "removeEdgeNode node index =
     (let np1 = length (gchildren node);
          before = mapi (\<lambda>k e. if etype e = out_edge_node
                                then translatedFrame_edge e
                                       (2 * real k / (real np1 * (real np1 - 1)), 0) (gworldMatrix node)
                                else e) (take index (gchildren node));
          after = mapi (\<lambda>k e. translatedFrame_edge e
                                 (- 2 * (real np1 - (real k + real index + 1)) / (real np1 * (real np1 - 1)), 0)
                                 (gworldMatrix node))
                    (drop (index + 1) (gchildren node))
      in node\<lparr>gchildren := before @ after\<rparr>)"

definition updateGraphNode :: "graph_node \<Rightarrow> js_error + graph_node" where
  "updateGraphNode node =
     (let index = findIndex (\<lambda>e. etype e = out_edge_node \<and> linkedTo (edata e) = None) (gchildren node) in
      if index < 0 then addEdgeNode node
      else if index = int (length (gchildren node)) - 1 then Inr node
      else Inr (removeEdgeNode node (nat index)))"

section \<open>Plane state management (graph-plane.js)\<close>

text \<open>
  A pointer or wheel event: \<open>evtype\<close> is \<open>event.type\<close>, and \<open>mousePos\<close> is what
  \<open>relativeMousePosition(event)\<close> of @mvarble/viewport.js returns for it (the pointer
  position on the canvas).
\<close>

record mouse_event =
  evtype :: string
  movementX :: real
  movementY :: real
  shiftKey :: bool
  deltaY :: real
  mousePos :: vec2

text \<open>A number is truthy when it is not zero.\<close>

definition truthy :: "real \<Rightarrow> bool" where
  "truthy x = (x \<noteq> 0)"

definition deselectGraphNodes :: "plane \<Rightarrow> plane" where
  "deselectGraphNodes plane = plane\<lparr>pchildren := map deselectNode (pchildren plane)\<rparr>"

text \<open>\<open>math.norm\<close> of a vector of two numbers.\<close>

definition norm2 :: "vec2 \<Rightarrow> real" where
  "norm2 v = sqrt ((fst v)\<^sup>2 + (snd v)\<^sup>2)"

text \<open>
  The measure \<open>changeZoom\<close> compares with 5 and 10:
  \<open>math.sqrt(math.norm(vecFrameTrans([1, 1], plane, { worldMatrix: math.identity(3) })))\<close>.
\<close>

definition zoomScale :: "plane \<Rightarrow> js_error + real" where
  "zoomScale plane =
     (case vecFrameTrans (1, 1) (pworldMatrix plane) identity3 of
        Inl err \<Rightarrow> Inl err
      | Inr v \<Rightarrow> Inr (sqrt (norm2 v)))"

definition changeZoom :: "mouse_event \<Rightarrow> plane \<Rightarrow> js_error + plane" where
  "changeZoom event plane =
     (case zoomScale plane of
        Inl err \<Rightarrow> Inl err
      | Inr z \<Rightarrow>
          if z < 5 \<and> deltaY event > 0 then Inr plane
          else if z > 10 \<and> deltaY event < 0 then Inr plane
          else
            (let mouseFrame = Mat3 1 0 (fst (mousePos event))
                                   0 (-1) (snd (mousePos event))
                                   0 0 1;
                 s = 1.1 powr (- deltaY event)
             in scaledFrame_plane plane (s * 1, s * 1) mouseFrame))"

definition dragPlane :: "plane \<Rightarrow> real \<Rightarrow> real \<Rightarrow> plane" where
  "dragPlane plane dx dy =
     (let planeFrame = translatedFrame_plane plane (dx, dy) identity3 in
      planeFrame\<lparr>pchildren := map deselectNode (pchildren planeFrame)\<rparr>)"

section \<open>Viewport state management (graph-viewport.js)\<close>

text \<open>
  \<open>resizeState\<close>. The factor \<open>-M[1][1] / M[0][0]\<close> is a JavaScript division: with
  \<open>M[0][0] = 0\<close> it is infinite or NaN and the function goes on with it. The model has
  no such numbers and ends there with \<open>Inl NonFinite\<close>.
\<close>

datatype outcome_error = Thrown js_error | NonFinite

definition resizeState :: "root \<Rightarrow> real \<Rightarrow> real \<Rightarrow> outcome_error + root" where
  "resizeState tree w h =
     (case withWorldMatrix_window (rwindow tree)
             (Mat3 (w / 2) 0 (w / 2)  0 (- h / 2) (h / 2)  0 0 1) of
        Inl err \<Rightarrow> Inl (Thrown err)
      | Inr windowFrame \<Rightarrow>
          (let M = pworldMatrix (wplane windowFrame) in
           if m00 M = 0 then Inl NonFinite
           else
             (case scaledFrame_plane (wplane windowFrame) (- m11 M / m00 M, 1)
                     (Mat3 1 0 (w / 2)  0 (-1) (h / 2)  0 0 1) of
                Inl err \<Rightarrow> Inl (Thrown err)
              | Inr planeFrame \<Rightarrow>
                  Inr \<lparr>canvas = canvas tree, width = Some w, height = Some h,
                       rwindow = windowFrame\<lparr>wplane := planeFrame\<rparr>\<rparr>)))"

text \<open>
  \<open>deleteSelectedNodes\<close>. The result is the outcome of the call and the input tree as the
  call leaves it. \<open>planeFrame\<close> is the plane object of the input tree, and the function
  first overwrites its children with \<open>planeFrame.children.filter(n => n.data.selected)\<close>.
  It then builds the properties \<open>{ canvas: tree.canvas, width: tree.width, width: height }\<close>
  of the root it would return. No binding of \<open>height\<close> is in scope (the parameter is
  \<open>tree\<close>, and the module binds no such name), so reading it throws a ReferenceError and
  the function never returns.
\<close>

definition deleteSelectedNodes :: "root \<Rightarrow> (js_error + root) \<times> root" where
  "deleteSelectedNodes tree =
     (let windowFrame = rwindow tree;
          planeFrame = wplane windowFrame;
          planeFrame' = planeFrame\<lparr>pchildren := filter (\<lambda>n. selected (gdata n)) (pchildren planeFrame)\<rparr>;
          tree' = tree\<lparr>rwindow := windowFrame\<lparr>wplane := planeFrame'\<rparr>\<rparr>
      in (Inl (ReferenceError ''height''), tree'))"

text \<open>
  \<open>appendNode\<close>. The result is the outcome of the call and the input tree as the call
  leaves it. The function builds the new box and then evaluates the children
  \<open>[newBox, ...planeFrame.children.map(deselectBox)]\<close> it would assign to the plane. The
  module neither defines nor imports \<open>deselectBox\<close>, so evaluating the argument of \<open>map\<close>
  throws a ReferenceError, whether the plane has children or not: nothing is assigned and
  the function never returns.
\<close>

definition appendNode :: "root \<Rightarrow> (js_error + root) \<times> root" where
  "appendNode tree =
     (let windowFrame = rwindow tree;
          planeFrame = wplane windowFrame;
          wM = wworldMatrix windowFrame;
          pM = pworldMatrix planeFrame;
          key = (if length (pchildren planeFrame) \<noteq> 0
                 then list_max (map gkey (pchildren planeFrame)) + 1 else 0);
          inEdgeNode = \<lparr>etype = in_edge_node, ekey = None,
             eworldMatrix = Mat3 (0.1 * m00 pM) 0 (m02 wM)
                                 0 (0.1 * m11 pM) (m12 wM + 0.9 * m11 pM)
                                 0 0 1,
             edata = \<lparr>eclickBox = [-4, -4, 4, 1], parentKey = key, linkedTo = None, to = None\<rparr>\<rparr>;
          outEdgeNode = \<lparr>etype = out_edge_node, ekey = Some 0,
             eworldMatrix = Mat3 (0.1 * m00 pM) 0 (m02 wM)
                                 0 (0.1 * m11 pM) (m12 wM - 0.9 * m11 pM)
                                 0 0 1,
             edata = \<lparr>eclickBox = [-4, -1, 4, 4], parentKey = key, linkedTo = None, to = None\<rparr>\<rparr>;
          newBox = \<lparr>gkey = key,
             gworldMatrix = Mat3 (2.5 * m00 pM) 0 (m02 wM)
                                 0 (m11 pM) (m12 wM)
                                 0 0 1,
             gdata = \<lparr>clickBox = [-1, -1, 1, 1], title = [], selected = True, active = True\<rparr>,
             gchildren = [inEdgeNode, outEdgeNode]\<rparr>
      in (Inl (ReferenceError ''deselectBox''), tree))"

section \<open>Reducers as data\<close>

text \<open>
  The components emit reducers (functions from a node to a node). To list what a component
  emits, and in which order, every reducer the source builds is named by a constructor;
  \<open>apply_edge_reducer\<close>, \<open>apply_node_reducer\<close> and \<open>apply_plane_reducer\<close> give the function
  the constructor stands for. A keyed reducer \<open>{ key, reducer }\<close> passed through
  \<open>liftReducer\<close> is \<open>LiftEdge key reducer\<close> (in a GraphNode) or \<open>LiftNode key reducer\<close>
  (in the GraphPlane).
\<close>

datatype edge_reducer =
    UpdateEdgeNode "edge_node option" "vec2 option"
  | FinalizeEdgeNode "edge_node option" "vec2 option"

datatype node_reducer =
    SelectNode
  | DeselectNode
  | LiftEdge "int option" edge_reducer
  | UpdateGraphNode

datatype plane_reducer =
    LiftNode int node_reducer
  | MakeActive int
  | MakeOnlySelected int
  | DragNodes real real
  | ChangeZoom mouse_event
  | DragPlane real real
  | DeselectGraphNodes

fun apply_edge_reducer :: "edge_reducer \<Rightarrow> edge_node \<Rightarrow> edge_node" where
  "apply_edge_reducer (UpdateEdgeNode hoveredNode position) e = updateEdgeNode e hoveredNode position"
| "apply_edge_reducer (FinalizeEdgeNode hoveredNode position) e = finalizeEdgeNode e hoveredNode position"

fun apply_node_reducer :: "node_reducer \<Rightarrow> graph_node \<Rightarrow> js_error + graph_node" where
  "apply_node_reducer SelectNode node = Inr (selectNode node)"
| "apply_node_reducer DeselectNode node = Inr (deselectNode node)"
| "apply_node_reducer (LiftEdge key r) node = lift_node key (\<lambda>e. Inr (apply_edge_reducer r e)) node"
| "apply_node_reducer UpdateGraphNode node = updateGraphNode node"

fun apply_plane_reducer :: "plane_reducer \<Rightarrow> plane \<Rightarrow> js_error + plane" where
  "apply_plane_reducer (LiftNode key r) plane = lift_plane key (apply_node_reducer r) plane"
| "apply_plane_reducer (MakeActive key) plane = Inr (makeActive key plane)"
| "apply_plane_reducer (MakeOnlySelected key) plane = Inr (makeOnlySelected key plane)"
| "apply_plane_reducer (DragNodes dx dy) plane = Inr (dragNodes dx dy plane)"
| "apply_plane_reducer (ChangeZoom event) plane = changeZoom event plane"
| "apply_plane_reducer (DragPlane dx dy) plane = Inr (dragPlane plane dx dy)"
| "apply_plane_reducer DeselectGraphNodes plane = Inr (deselectGraphNodes plane)"

section \<open>The GraphEdge component (graph-edge.js)\<close>

text \<open>
  One sample of a drag, as \<open>hoverDrag$\<close> interprets it. \<open>over\<close> is the node
  \<open>getOver(event, grandparent)\<close> finds under the pointer when that node is an edge node
  (no node, or a node of another type, fails the test on \<open>hoveredNode.type\<close> alike).
\<close>

record hover_drag =
  hevent :: mouse_event
  hoveredNode :: "edge_node option"
  position :: "vec2 option"

definition hoverDrag :: "edge_node \<Rightarrow> mouse_event \<times> edge_node option \<Rightarrow> hover_drag" where
  "hoverDrag state sample =
     (case snd sample of
        Some h \<Rightarrow>
          if etype h = in_edge_node \<and> parentKey (edata h) \<noteq> parentKey (edata state)
          then \<lparr>hevent = fst sample, hoveredNode = Some h, position = None\<rparr>
          else \<lparr>hevent = fst sample, hoveredNode = None, position = Some (mousePos (fst sample))\<rparr>
      | None \<Rightarrow> \<lparr>hevent = fst sample, hoveredNode = None, position = Some (mousePos (fst sample))\<rparr>)"

text \<open>
  xstream's \<open>dropRepeats(isEq)\<close>: a value is dropped when \<open>isEq\<close> holds of it and the
  last value let through (\<open>v\<close>, none at the start).
\<close>

fun dropRepeats :: "('a \<Rightarrow> 'a \<Rightarrow> bool) \<Rightarrow> 'a option \<Rightarrow> 'a list \<Rightarrow> 'a list" where
  "dropRepeats isEq v [] = []"
| "dropRepeats isEq v (t # ts) =
     (case v of
        Some u \<Rightarrow> if isEq t u then dropRepeats isEq v ts else t # dropRepeats isEq (Some t) ts
      | None \<Rightarrow> t # dropRepeats isEq (Some t) ts)"

definition sameHover :: "hover_drag \<Rightarrow> hover_drag \<Rightarrow> bool" where
  "sameHover a b = (hoveredNode a \<noteq> None \<and> hoveredNode b \<noteq> None
                     \<and> evtype (hevent a) = evtype (hevent b))"

text \<open>
  The reducers one interpreted sample gives: on \<open>mousemove\<close> a self reducer only; on any
  other event (the release) the self reducer that finalizes the edge and then the parent
  reducer \<open>updateGraphNode\<close>.
\<close>

definition edge_drag :: "hover_drag \<Rightarrow> edge_reducer list \<times> node_reducer list" where
  "edge_drag d =
     (if evtype (hevent d) = ''mousemove''
      then ([UpdateEdgeNode (hoveredNode d) (position d)], [])
      else ([FinalizeEdgeNode (hoveredNode d) (position d)], [UpdateGraphNode]))"

text \<open>
  What the GraphEdge of the edge \<open>state\<close> sends to its GraphNode over a drag: the self
  reducers keyed with the edge's key (\<open>keySink\<close>) and lifted, and the parent reducers,
  sample by sample, the self sink before the parent sink.
\<close>

definition GraphEdge :: "edge_node \<Rightarrow> (mouse_event \<times> edge_node option) list \<Rightarrow> node_reducer list" where
  "GraphEdge state samples =
     concat (map (\<lambda>d. map (LiftEdge (ekey state)) (fst (edge_drag d)) @ snd (edge_drag d))
                 (dropRepeats sameHover None (map (hoverDrag state) samples)))"

section \<open>The GraphNode component (graph-node.js)\<close>

text \<open>
  \<open>drag$\<close>: \<open>move\<close> is the stream of move samples of one drag and \<open>state\<close> the node
  sampled when the drag starts. \<open>moveStart\<close> is what the first sample gives, \<open>moveEnd\<close>
  what the later ones give after the filter \<open>e => e.movementX && e.movementY\<close>.
\<close>

definition moveStart :: "graph_node \<Rightarrow> mouse_event list \<Rightarrow> plane_reducer list" where
  "moveStart state move =
     concat (map (\<lambda>e.
         if active (gdata state) then [DragNodes (movementX e) (movementY e)]
         else if selected (gdata state) \<or> shiftKey e
           then [MakeActive (gkey state), DragNodes (movementX e) (movementY e)]
           else [MakeOnlySelected (gkey state), DragNodes (movementX e) (movementY e)])
       (take 1 move))"

definition moveEnd :: "mouse_event list \<Rightarrow> plane_reducer list" where
  "moveEnd move =
     map (\<lambda>e. DragNodes (movementX e) (movementY e))
       (filter (\<lambda>e. truthy (movementX e) \<and> truthy (movementY e)) (drop 1 move))"

datatype node_event =
    SingleClick mouse_event
  | NodeDrag "mouse_event list"
  | EdgeDrag nat "(mouse_event \<times> edge_node option) list"

text \<open>
  The sinks \<open>{ self, parent }\<close> of the GraphNode of the child \<open>state\<close> of \<open>parent\<close>, for
  one event on the node: a single click, a drag of the node, or a drag on the edge node at
  position \<open>j\<close> of its children (a GraphEdge exists for the out-edge-nodes only).
\<close>

definition onlySelected :: "plane \<Rightarrow> graph_node \<Rightarrow> bool" where
  "onlySelected parent state =
     (let numberSelected = length (filter (\<lambda>c. selected (gdata c)) (pchildren parent)) in
      selected (gdata state) \<and> numberSelected = 1)"

fun GraphNode :: "plane \<Rightarrow> graph_node \<Rightarrow> node_event \<Rightarrow> node_reducer list \<times> plane_reducer list" where
  "GraphNode parent state (SingleClick e) =
     (if shiftKey e then
        (if active (gdata state) then ([DeselectNode], [])
         else ([SelectNode], [MakeActive (gkey state)]))
      else
        (if active (gdata state) then
           (if onlySelected parent state then ([DeselectNode], [])
            else ([], [MakeOnlySelected (gkey state)]))
         else ([], [MakeOnlySelected (gkey state)])))"
| "GraphNode parent state (NodeDrag move) = ([], moveStart state move @ moveEnd move)"
| "GraphNode parent state (EdgeDrag j samples) =
     (if j < length (gchildren state) \<and> etype (gchildren state ! j) = out_edge_node
      then (GraphEdge (gchildren state ! j) samples, [])
      else ([], []))"

section \<open>The GraphPlane component (graph-plane.js)\<close>

datatype plane_event =
    Wheel mouse_event
  | PlaneDrag "mouse_event list"
  | PlaneSingleClick
  | ChildEvent nat node_event

text \<open>
  The reducers the GraphPlane emits on its \<open>state\<close> sink for one event, in emission
  order. The sinks of the child at position \<open>i\<close> are merged with its self reducers keyed
  by the child's key and lifted, before its parent reducers
  (\<open>children$.compose(liftReducer('self'))\<close> stands before
  \<open>children$.compose(extractConcurrently('parent'))\<close> in the merge).
\<close>

fun GraphPlane :: "plane \<Rightarrow> plane_event \<Rightarrow> plane_reducer list" where
  "GraphPlane plane (Wheel e) = [ChangeZoom e]"
| "GraphPlane plane (PlaneDrag move) =
     map (\<lambda>e. DragPlane (movementX e) (movementY e))
       (filter (\<lambda>e. truthy (movementX e) \<and> truthy (movementY e)) move)"
| "GraphPlane plane PlaneSingleClick = [DeselectGraphNodes]"
| "GraphPlane plane (ChildEvent i ev) =
     (if i < length (pchildren plane) then
        (let child = pchildren plane ! i;
             sink = GraphNode plane child ev
         in map (LiftNode (gkey child)) (fst sink) @ snd sink)
      else [])"

text \<open>
  The reducers are applied to the state one at a time, in emission order. A configuration
  is the plane and the reducers emitted and not yet applied; a new event is taken when
  none is pending.
\<close>

inductive step :: "plane \<times> plane_reducer list \<Rightarrow> plane \<times> plane_reducer list \<Rightarrow> bool" where
  emit: "step (s, []) (s, GraphPlane s ev)"
| reduce: "apply_plane_reducer m s = Inr s' \<Longrightarrow> step (s, m # ms) (s', ms)"

text \<open>At most one graph node of the plane is active, and an active node is selected.\<close>

definition one_active :: "plane \<Rightarrow> bool" where
  "one_active p =
     (length (filter (\<lambda>n. active (gdata n)) (pchildren p)) \<le> 1
      \<and> list_all (\<lambda>n. active (gdata n) \<longrightarrow> selected (gdata n)) (pchildren p))"

section \<open>selectNode and deselectNode on the object store\<close>

text \<open>
  \<open>selectNode\<close> copies the node with \<open>{ ...node }\<close> and then assigns to
  \<open>nodeCopy.data.selected\<close> and \<open>nodeCopy.data.active\<close>. The spread copies the fields of
  the node object, so \<open>nodeCopy.data\<close> is the very object \<open>node.data\<close>. To follow the two
  assignments, a graph-node object holds in \<open>obj_data\<close> a reference to its data object, and
  the store maps references to data objects. \<open>snapshot\<close> reads the graph node an object
  stands for in a store.
\<close>

type_synonym ref = nat

record node_object =
  obj_key :: int
  obj_worldMatrix :: mat3
  obj_data :: ref
  obj_children :: "edge_node list"

type_synonym store = "ref \<Rightarrow> node_data option"

definition snapshot :: "store \<Rightarrow> node_object \<Rightarrow> graph_node option" where
  "snapshot st node =
     (case st (obj_data node) of
        None \<Rightarrow> None
      | Some d \<Rightarrow> Some \<lparr>gkey = obj_key node, gworldMatrix = obj_worldMatrix node,
                         gdata = d, gchildren = obj_children node\<rparr>)"

definition selectNode_store :: "store \<Rightarrow> node_object \<Rightarrow> js_error + (store \<times> node_object)" where
  "selectNode_store st node =
     (let nodeCopy = node in
      case st (obj_data nodeCopy) of
        None \<Rightarrow> Inl TypeError
      | Some d \<Rightarrow>
          (let st1 = st(obj_data nodeCopy := Some (d\<lparr>selected := True\<rparr>));
               st2 = st1(obj_data nodeCopy := Some ((d\<lparr>selected := True\<rparr>)\<lparr>active := True\<rparr>))
           in Inr (st2, nodeCopy)))"

definition deselectNode_store :: "store \<Rightarrow> node_object \<Rightarrow> js_error + (store \<times> node_object)" where
  "deselectNode_store st node =
     (let nodeCopy = node in
      case st (obj_data nodeCopy) of
        None \<Rightarrow> Inl TypeError
      | Some d \<Rightarrow>
          (let st1 = st(obj_data nodeCopy := Some (d\<lparr>selected := False\<rparr>));
               st2 = st1(obj_data nodeCopy := Some ((d\<lparr>selected := False\<rparr>)\<lparr>active := False\<rparr>))
           in Inr (st2, nodeCopy)))"

section \<open>Sample trees\<close>

text \<open>
  A graph node as the test application's \<open>createNode(key)\<close> builds it (plane matrix
  \<open>[[0.1, 0, 0], [0, 0.1, 0], [0, 0, 1]]\<close>, identity window), with an empty title and the
  flags given; \<open>linked_edge\<close> is a further out-edge-node, linked to the node \<open>target\<close>.
\<close>

definition sample_in_edge :: "int \<Rightarrow> edge_node" where
  "sample_in_edge key =
     \<lparr>etype = in_edge_node, ekey = None,
      eworldMatrix = Mat3 0.01 0 0  0 0.01 0.09  0 0 1,
      edata = \<lparr>eclickBox = [-4, -4, 4, 1], parentKey = key, linkedTo = None, to = None\<rparr>\<rparr>"

definition sample_out_edge :: "int \<Rightarrow> edge_node" where
  "sample_out_edge key =
     \<lparr>etype = out_edge_node, ekey = Some 0,
      eworldMatrix = Mat3 0.01 0 0  0 0.01 (-0.09)  0 0 1,
      edata = \<lparr>eclickBox = [-4, -1, 4, 4], parentKey = key, linkedTo = None, to = None\<rparr>\<rparr>"

definition linked_edge :: "int \<Rightarrow> int \<Rightarrow> int \<Rightarrow> edge_node" where
  "linked_edge key k target =
     \<lparr>etype = out_edge_node, ekey = Some k,
      eworldMatrix = Mat3 0.01 0 0  0 0.01 (-0.09)  0 0 1,
      edata = \<lparr>eclickBox = [-4, -1, 4, 4], parentKey = key, linkedTo = Some target, to = None\<rparr>\<rparr>"

definition sample_node :: "int \<Rightarrow> bool \<Rightarrow> bool \<Rightarrow> graph_node" where
  "sample_node key sel act =
     \<lparr>gkey = key,
      gworldMatrix = Mat3 0.25 0 0  0 0.1 0  0 0 1,
      gdata = \<lparr>clickBox = [-1, -1, 1, 1], title = [], selected = sel, active = act\<rparr>,
      gchildren = [sample_in_edge key, sample_out_edge key]\<rparr>"

definition sample_plane :: "graph_node list \<Rightarrow> plane" where
  "sample_plane nodes = \<lparr>pworldMatrix = Mat3 0.1 0 0  0 0.1 0  0 0 1, pchildren = nodes\<rparr>"

definition sample_event :: mouse_event where
  "sample_event = \<lparr>evtype = ''mousemove'', movementX = 0, movementY = 0, shiftKey = False,
                    deltaY = 0, mousePos = (0, 0)\<rparr>"

definition sample_store :: store where
  "sample_store = (\<lambda>r. None)(0 := Some \<lparr>clickBox = [-1, -1, 1, 1], title = [],
                                           selected = False, active = False\<rparr>)"

definition sample_object :: node_object where
  "sample_object = \<lparr>obj_key = 0, obj_worldMatrix = Mat3 0.25 0 0  0 0.1 0  0 0 1, obj_data = 0,
                     obj_children = [sample_in_edge 0, sample_out_edge 0]\<rparr>"

section \<open>The trailing-anchor invariant\<close>

text \<open>
  An open anchor is an out-edge-node without \<open>linkedTo\<close>. A graph node satisfies the
  trailing-anchor invariant when exactly one of its children is an open anchor and that
  child is the last one. A graph node has the shape of the data model when its first child
  is an in-edge-node and all the others are out-edge-nodes.
\<close>

definition open_anchor :: "edge_node \<Rightarrow> bool" where
  "open_anchor e = (etype e = out_edge_node \<and> linkedTo (edata e) = None)"

definition trailing_anchor :: "graph_node \<Rightarrow> bool" where
  "trailing_anchor node =
     (gchildren node \<noteq> []
      \<and> open_anchor (last (gchildren node))
      \<and> list_all (\<lambda>e. \<not> open_anchor e) (butlast (gchildren node)))"

definition node_shape :: "graph_node \<Rightarrow> bool" where
  "node_shape node =
     (case gchildren node of
        [] \<Rightarrow> False
      | c # cs \<Rightarrow> etype c = in_edge_node \<and> list_all (\<lambda>e. etype e = out_edge_node) cs)"

text \<open>
  How an edge repair may change a child \<open>c\<close> of \<open>node\<close> into \<open>c'\<close>: an out-edge-node is
  translated along the first axis of the node's frame, any other child is kept as it is.
\<close>

definition kept_or_translated :: "graph_node \<Rightarrow> edge_node \<Rightarrow> edge_node \<Rightarrow> bool" where
  "kept_or_translated node c c' =
     (if etype c = out_edge_node
      then \<exists>d. c' = translatedFrame_edge c (d, 0) (gworldMatrix node)
      else c' = c)"

text \<open>A tree sized 800 by 600 pixels that holds the given graph nodes.\<close>

definition sample_tree :: "graph_node list \<Rightarrow> root" where
  "sample_tree nodes =
     \<lparr>canvas = ''canvas'', width = Some 800, height = Some 600,
      rwindow = \<lparr>wworldMatrix = Mat3 400 0 400  0 (-300) 300  0 0 1,
                 wplane = \<lparr>pworldMatrix = Mat3 30 0 400  0 (-30) 300  0 0 1, pchildren = nodes\<rparr>\<rparr>\<rparr>"

text \<open>A graph node with a linked out-edge-node before its open trailing anchor.\<close>

definition sample_linked_node :: graph_node where
  "sample_linked_node =
     (sample_node 0 False False)
       \<lparr>gchildren := [sample_in_edge 0, linked_edge 0 0 1, (sample_out_edge 0)\<lparr>ekey := Some 1\<rparr>]\<rparr>"

text \<open>
  The on-screen length of the plane's unit diagonal: the length of \<open>[1, 1]\<close> taken from
  the plane's frame to canvas coordinates.
\<close>

definition unit_diagonal :: "plane \<Rightarrow> real" where
  "unit_diagonal plane =
     norm2 (m00 (pworldMatrix plane) + m01 (pworldMatrix plane),
            m10 (pworldMatrix plane) + m11 (pworldMatrix plane))"

text \<open>The matrix \<open>resizeState\<close> gives the window for a container of the given size.\<close>

definition window_matrix :: "real \<Rightarrow> real \<Rightarrow> mat3" where
  "window_matrix w h = Mat3 (w / 2) 0 (w / 2)  0 (- h / 2) (h / 2)  0 0 1"

text \<open>
  The initial state of the test application (no graph nodes), and a plane seven pixels to
  the unit.
\<close>

definition sample_root :: root where
  "sample_root =
     \<lparr>canvas = ''canvas'', width = None, height = None,
      rwindow = \<lparr>wworldMatrix = identity3, wplane = sample_plane []\<rparr>\<rparr>"

definition seven_pixel_plane :: plane where
  "seven_pixel_plane = \<lparr>pworldMatrix = Mat3 7 0 0  0 (-7) 0  0 0 1, pchildren = []\<rparr>"

text \<open>
  The test application's initial state after the container has been measured at 800 by
  600 pixels, and after it has then been resized to 400 by 300 pixels.
\<close>

definition root_800_600 :: root where
  "root_800_600 =
     \<lparr>canvas = ''canvas'', width = Some 800, height = Some 600,
      rwindow = \<lparr>wworldMatrix = Mat3 400 0 400  0 (-300) 300  0 0 1,
                 wplane = \<lparr>pworldMatrix = Mat3 30 0 400  0 (-30) 300  0 0 1, pchildren = []\<rparr>\<rparr>\<rparr>"

definition root_400_300 :: root where
  "root_400_300 =
     \<lparr>canvas = ''canvas'', width = Some 400, height = Some 300,
      rwindow = \<lparr>wworldMatrix = Mat3 200 0 200  0 (-150) 150  0 0 1,
                 wplane = \<lparr>pworldMatrix = Mat3 15 0 200  0 (-15) 150  0 0 1, pchildren = []\<rparr>\<rparr>\<rparr>"

text \<open>
  The one reducer that can break \<open>one_active\<close>: the lifted \<open>selectNode\<close>, which the
  GraphNode emits on a shift-click together with the parent reducer \<open>makeActive\<close>.
\<close>

fun lone_select :: "plane_reducer \<Rightarrow> bool" where
  "lone_select (LiftNode key SelectNode) = True"
| "lone_select r = False"

text \<open>
  What holds of every configuration: the plane satisfies \<open>one_active\<close> and the pending
  reducers are free of a lifted \<open>selectNode\<close>, or they are the pair a shift-click emits;
  or the \<open>makeActive\<close> of that pair, for a key of the plane, is what is pending.
\<close>

definition config_ok :: "plane \<times> plane_reducer list \<Rightarrow> bool" where
  "config_ok c =
     (case c of (s, pending) \<Rightarrow>
        (one_active s
           \<and> (list_all (\<lambda>m. \<not> lone_select m) pending
                \<or> (\<exists>k \<in> gkey ` set (pchildren s). pending = [LiftNode k SelectNode, MakeActive k])))
        \<or> (\<exists>k \<in> gkey ` set (pchildren s). pending = [MakeActive k]))"

text \<open>
  The reducers of a GraphNode's self sink applied one after the other; the first that
  throws ends the run.
\<close>

fun run_node_reducers :: "node_reducer list \<Rightarrow> graph_node \<Rightarrow> js_error + graph_node" where
  "run_node_reducers [] node = Inr node"
| "run_node_reducers (r # rs) node =
     (case apply_node_reducer r node of
        Inl err \<Rightarrow> Inl err
      | Inr node' \<Rightarrow> run_node_reducers rs node')"

text \<open>
  The reducer a drag on the edge with key \<open>key\<close> emits for a \<open>mousemove\<close> sample: the
  lifted \<open>updateEdgeNode\<close>.
\<close>

fun edge_move :: "int option \<Rightarrow> node_reducer \<Rightarrow> bool" where
  "edge_move key (LiftEdge k (UpdateEdgeNode h p)) = (k = key)"
| "edge_move key r = False"

text \<open>The image of a canvas point under a transformation given in canvas coordinates.\<close>

definition point_image :: "mat3 \<Rightarrow> vec2 \<Rightarrow> vec2" where
  "point_image T v =
     (m00 T * fst v + m01 T * snd v + m02 T, m10 T * fst v + m11 T * snd v + m12 T)"

section \<open>Properties\<close>

subsection \<open>findIndex\<close>

lemma findIndex_ge_minus_one: "findIndex P xs \<ge> -1"
  by (induction xs) (auto simp: Let_def)

lemma findIndex_none: "findIndex P xs < 0 \<longleftrightarrow> (\<forall>x \<in> set xs. \<not> P x)"
  using findIndex_ge_minus_one [of P]
  by (induction xs) (auto simp: Let_def)

lemma findIndex_takeWhile:
  "findIndex P xs = (if \<exists>x \<in> set xs. P x then int (length (takeWhile (\<lambda>x. \<not> P x) xs)) else -1)"
proof (induction xs)
  case Nil
  show ?case by simp
next
  case (Cons x xs)
  show ?case
  proof (cases "P x")
    case True
    then show ?thesis by simp
  next
    case False
    with Cons show ?thesis by (auto simp: Let_def)
  qed
qed

subsection \<open>liftReducer with a stale key\<close>

lemma lift_children_absent:
  "key \<notin> key_of ` set children \<Longrightarrow> lift_children key_of key reducer children = Inr children"
proof -
  assume "key \<notin> key_of ` set children"
  then have "\<forall>c \<in> set children. \<not> (key_of c = key)" by auto
  then have "findIndex (\<lambda>c. key_of c = key) children < 0"
    by (simp add: findIndex_none)
  then show ?thesis by (simp add: lift_children_def Let_def)
qed

text \<open>
  C7: a keyed child reducer whose key is the key of no child of the parent lifts to a
  reducer that returns the parent as it was (same fields, same children) and does not
  throw, whatever the child reducer is; this holds for the Plane (children: graph nodes)
  and for a GraphNode (children: edge nodes).
\<close>

theorem liftReducer_absent_key:
  "(key \<notin> gkey ` set (pchildren parent) \<longrightarrow> lift_plane key reducer parent = Inr parent) \<and>
   (k \<notin> ekey ` set (gchildren node) \<longrightarrow> lift_node k r node = Inr node)"
  by (simp add: lift_plane_def lift_node_def lift_children_absent)

text \<open>
  Witness for C7: in a plane whose only child has key 0, the reducer keyed 7 lifts to the
  identity, and so does the reducer keyed 3 in a graph node whose edge nodes have the keys
  \<open>undefined\<close> and 0; the child reducers here throw whenever they are called, so they
  were not called.
\<close>

theorem liftReducer_absent_key_witness:
  "lift_plane 7 (\<lambda>n. Inl TypeError) (sample_plane [sample_node 0 False False])
     = Inr (sample_plane [sample_node 0 False False]) \<and>
   lift_node (Some 3) (\<lambda>e. Inl TypeError) (sample_node 0 False False)
     = Inr (sample_node 0 False False)"
  using liftReducer_absent_key [of 7 "sample_plane [sample_node 0 False False]" "\<lambda>n. Inl TypeError"
          "Some 3" "sample_node 0 False False" "\<lambda>e. Inl TypeError"]
  by (simp add: sample_plane_def sample_node_def sample_in_edge_def sample_out_edge_def)

subsection \<open>Drag continuation of a node\<close>

text \<open>
  C9, as the code has it: the first move sample of a drag never passes through \<open>moveEnd\<close>,
  and every later sample adds the reducer "move the selected siblings by
  (movementX, movementY)" exactly when both \<open>movementX\<close> and \<open>movementY\<close> are nonzero;
  a sample with either component zero is suppressed.
\<close>

theorem moveEnd_sample:
  "moveEnd [first] = [] \<and>
   moveEnd (first # rest @ [e]) =
     moveEnd (first # rest) @
       (if movementX e \<noteq> 0 \<and> movementY e \<noteq> 0 then [DragNodes (movementX e) (movementY e)] else [])"
  by (simp add: moveEnd_def truthy_def)

text \<open>
  Counterexample to C9 as stated: the second sample of this drag has the nonzero delta
  (5, 0), and no reducer is emitted for it.
\<close>

theorem drag_horizontal_sample_suppressed:
  "moveEnd [sample_event, sample_event\<lparr>movementX := 5, movementY := 0\<rparr>] = []"
  by (simp add: moveEnd_def truthy_def sample_event_def)

subsection \<open>The exported edit operations\<close>

text \<open>
  C2 (the code at a failing input, and at every input): on a tree whose plane holds the
  selected node 0 and the unselected node 1, \<open>deleteSelectedNodes\<close> throws the
  ReferenceError of the unbound identifier \<open>height\<close> and leaves the input tree with the
  selected node 0 as the plane's only child; it returns a tree at no input.
\<close>

theorem deleteSelectedNodes_throws:
  "deleteSelectedNodes (sample_tree [sample_node 0 True True, sample_node 1 False False])
     = (Inl (ReferenceError ''height''), sample_tree [sample_node 0 True True]) \<and>
   fst (deleteSelectedNodes tree) = Inl (ReferenceError ''height'')"
  by (simp add: deleteSelectedNodes_def Let_def sample_tree_def sample_node_def)

text \<open>
  C3 (the code at every input, the tree with an empty plane included): \<open>appendNode\<close>
  returns no tree; it throws the ReferenceError of the unbound identifier \<open>deselectBox\<close>
  and leaves the input tree as it was.
\<close>

theorem appendNode_throws:
  "appendNode (sample_tree []) = (Inl (ReferenceError ''deselectBox''), sample_tree []) \<and>
   appendNode tree = (Inl (ReferenceError ''deselectBox''), tree)"
  by (simp add: appendNode_def Let_def)

subsection \<open>In-place mutation by selectNode\<close>

text \<open>
  The node \<open>selectNode\<close> returns, read in the store after the call, is the value the pure
  \<open>selectNode\<close> gives.
\<close>

lemma selectNode_store_snapshot:
  "selectNode_store st node = Inr (st', copy) \<Longrightarrow>
     snapshot st node = Some n \<Longrightarrow> snapshot st' copy = Some (selectNode n)"
  by (auto simp: selectNode_store_def snapshot_def selectNode_def Let_def split: option.splits)

text \<open>
  C6 (the code at failing inputs): before the call the input node is neither selected nor
  active; after \<open>selectNode\<close> has returned, the input node itself, read again, is selected
  and active, because the copy shares its data object. And \<open>deleteSelectedNodes\<close> leaves
  the plane of its input tree without the unselected node 1.
\<close>

theorem selectNode_store_changes_input:
  "snapshot sample_store sample_object = Some (sample_node 0 False False) \<and>
   (case selectNode_store sample_store sample_object of
      Inl err \<Rightarrow> False
    | Inr (st', nodeCopy) \<Rightarrow> snapshot st' sample_object = Some (sample_node 0 True True)) \<and>
   snd (deleteSelectedNodes (sample_tree [sample_node 0 True True, sample_node 1 False False]))
     = sample_tree [sample_node 0 True True]"
  by (simp add: snapshot_def selectNode_store_def sample_store_def sample_object_def
        sample_node_def Let_def deleteSelectedNodes_def sample_tree_def)

subsection \<open>Edge repair\<close>

lemma length_mapi [simp]: "length (mapi f xs) = length xs"
  by (simp add: mapi_def)

lemma nth_mapi [simp]: "i < length xs \<Longrightarrow> mapi f xs ! i = f i (xs ! i)"
  by (simp add: mapi_def nth_enumerate_eq)

lemma mapi_Nil [simp]: "mapi f [] = []"
  by (simp add: mapi_def)

lemma mapi_Cons: "mapi f (x # xs) = f 0 x # mapi (\<lambda>i. f (Suc i)) xs"
  by (simp add: mapi_def enumerate_Suc_eq split_def o_def)

lemma mapi_eq_Nil [simp]: "mapi f xs = [] \<longleftrightarrow> xs = []"
  by (cases xs) (simp_all add: mapi_Cons)

lemma mapi_snoc: "mapi f (xs @ [x]) = mapi f xs @ [f (length xs) x]"
  by (simp add: mapi_def enumerate_append_eq)

lemma list_all_mapi:
  "(\<And>i e. e \<in> set xs \<Longrightarrow> Q (f i e) = Q e) \<Longrightarrow> list_all Q (mapi f xs) = list_all Q xs"
  by (induction xs arbitrary: f) (auto simp: mapi_Cons)

lemma open_anchor_translated [simp]:
  "open_anchor (translatedFrame_edge e d R) = open_anchor e"
  by (simp add: open_anchor_def translatedFrame_edge_def transform_edge_def)

lemma open_anchor_finalize:
  "open_anchor (finalizeEdgeNode e h p) \<longleftrightarrow> etype e = out_edge_node \<and> h = None"
  by (simp add: open_anchor_def finalizeEdgeNode_def updateEdgeNode_def Let_def split: option.splits)

lemma findIndex_first:
  "list_all (\<lambda>x. \<not> P x) xs \<Longrightarrow> P y \<Longrightarrow> findIndex P (xs @ y # ys) = int (length xs)"
  by (induction xs) (auto simp: Let_def)

lemma findIndex_bounds: "0 \<le> findIndex P xs \<Longrightarrow> nat (findIndex P xs) < length xs"
  by (induction xs) (auto simp: Let_def split: if_splits)

lemma trailing_anchor_snoc:
  "trailing_anchor node \<longleftrightarrow> (\<exists>xs l. gchildren node = xs @ [l] \<and> open_anchor l \<and> list_all (\<lambda>e. \<not> open_anchor e) xs)"
  unfolding trailing_anchor_def
  by (cases "gchildren node" rule: rev_cases) auto

lemma updateGraphNode_stable:
  assumes "trailing_anchor node"
  shows "updateGraphNode node = Inr node"
proof -
  from assms obtain xs l where cs: "gchildren node = xs @ [l]" and l: "open_anchor l"
    and xs: "list_all (\<lambda>e. \<not> open_anchor e) xs"
    by (auto simp: trailing_anchor_snoc)
  have "findIndex open_anchor (xs @ [l]) = int (length xs)"
    using findIndex_first [OF xs l, of "[]"] by simp
  then have "findIndex (\<lambda>e. etype e = out_edge_node \<and> linkedTo (edata e) = None) (gchildren node) = int (length xs)"
    using cs by (simp add: open_anchor_def [abs_def])
  then show ?thesis
    using cs by (simp add: updateGraphNode_def Let_def)
qed

lemma not_open_mapi_cond [simp]:
  "list_all (\<lambda>e. \<not> open_anchor e)
     (mapi (\<lambda>i e. if etype e = out_edge_node then translatedFrame_edge e (d i) R else e) xs)
   = list_all (\<lambda>e. \<not> open_anchor e) xs"
  by (rule list_all_mapi) simp

lemma not_open_mapi_all [simp]:
  "list_all (\<lambda>e. \<not> open_anchor e) (mapi (\<lambda>i e. translatedFrame_edge e (d i) R) xs)
   = list_all (\<lambda>e. \<not> open_anchor e) xs"
  by (rule list_all_mapi) simp

lemma open_anchor_new_edge [simp]:
  "open_anchor (e\<lparr>edata := (edata e)\<lparr>linkedTo := None\<rparr>, ekey := k\<rparr>) \<longleftrightarrow> etype e = out_edge_node"
  by (simp add: open_anchor_def)

lemma etype_translated [simp]: "etype (translatedFrame_edge e d R) = etype e"
  by (simp add: translatedFrame_edge_def transform_edge_def)

lemma addEdgeNode_trailing:
  assumes cs: "gchildren node = xs @ [l]" and l: "etype l = out_edge_node"
    and all: "list_all (\<lambda>e. \<not> open_anchor e) (xs @ [l])"
  shows "\<exists>n2. addEdgeNode node = Inr n2 \<and> trailing_anchor n2"
  using assms unfolding addEdgeNode_def Let_def trailing_anchor_def
  by simp

lemma removeEdgeNode_trailing:
  assumes cs: "gchildren node = xs @ e # ys @ [l]" and l: "open_anchor l"
    and xs: "list_all (\<lambda>e. \<not> open_anchor e) xs" and ys: "list_all (\<lambda>e. \<not> open_anchor e) ys"
  shows "trailing_anchor (removeEdgeNode node (length xs))"
  using assms unfolding removeEdgeNode_def Let_def trailing_anchor_def
  by (simp add: mapi_snoc butlast_append)

lemma etype_finalize [simp]: "etype (finalizeEdgeNode e h p) = etype e"
  by (simp add: finalizeEdgeNode_def updateEdgeNode_def Let_def)

lemma updateGraphNode_add:
  assumes "gchildren n = xs @ [l]" "etype l = out_edge_node"
    "list_all (\<lambda>e. \<not> open_anchor e) (xs @ [l])"
  shows "\<exists>n2. updateGraphNode n = Inr n2 \<and> trailing_anchor n2"
proof -
  have "\<forall>e \<in> set (gchildren n). \<not> open_anchor e"
    using assms by (simp add: list_all_iff)
  then have "findIndex open_anchor (gchildren n) < 0"
    by (simp add: findIndex_none)
  then have "updateGraphNode n = addEdgeNode n"
    by (simp add: updateGraphNode_def Let_def open_anchor_def [abs_def])
  then show ?thesis using addEdgeNode_trailing [OF assms] by simp
qed

lemma updateGraphNode_remove:
  assumes cs: "gchildren n = xs @ e # ys @ [l]" and e: "open_anchor e" and l: "open_anchor l"
    and xs: "list_all (\<lambda>e. \<not> open_anchor e) xs" and ys: "list_all (\<lambda>e. \<not> open_anchor e) ys"
  shows "\<exists>n2. updateGraphNode n = Inr n2 \<and> trailing_anchor n2"
proof -
  have "findIndex open_anchor (gchildren n) = int (length xs)"
    using findIndex_first [OF xs e] cs by simp
  then have "updateGraphNode n = Inr (removeEdgeNode n (length xs))"
    using cs by (simp add: updateGraphNode_def Let_def open_anchor_def [abs_def])
  then show ?thesis using removeEdgeNode_trailing [OF cs l xs ys] by simp
qed

text \<open>
  The release of an edge drag on a node that satisfies the trailing-anchor invariant: the
  lifted self reducer and then \<open>updateGraphNode\<close> return, and the invariant holds again.
\<close>

lemma release_repair:
  assumes inv: "trailing_anchor node"
  shows "\<exists>n1 n2. lift_node key (\<lambda>e. Inr (finalizeEdgeNode e h p)) node = Inr n1
           \<and> updateGraphNode n1 = Inr n2 \<and> trailing_anchor n2"
proof -
  from inv obtain xs l where cs: "gchildren node = xs @ [l]" and l: "open_anchor l"
    and xs: "list_all (\<lambda>e. \<not> open_anchor e) xs"
    by (auto simp: trailing_anchor_snoc)
  define idx where "idx = findIndex (\<lambda>c. ekey c = key) (gchildren node)"
  show ?thesis
  proof (cases "idx < 0")
    case True
    then have "lift_node key (\<lambda>e. Inr (finalizeEdgeNode e h p)) node = Inr node"
      by (simp add: lift_node_def lift_children_def idx_def Let_def)
    then show ?thesis using updateGraphNode_stable [OF inv] inv by simp
  next
    case False
    define i where "i = nat idx"
    have i: "i < length (xs @ [l])"
      using False findIndex_bounds [of "\<lambda>c. ekey c = key" "gchildren node"] cs
      by (simp add: idx_def i_def)
    define n1 where "n1 = node\<lparr>gchildren := (gchildren node)[i := finalizeEdgeNode (gchildren node ! i) h p]\<rparr>"
    have lift: "lift_node key (\<lambda>e. Inr (finalizeEdgeNode e h p)) node = Inr n1"
      using False by (simp add: lift_node_def lift_children_def idx_def [symmetric] Let_def n1_def i_def)
    have "\<exists>n2. updateGraphNode n1 = Inr n2 \<and> trailing_anchor n2"
    proof (cases "i = length xs")
      case True
      then have ch: "gchildren n1 = xs @ [finalizeEdgeNode l h p]"
        by (simp add: n1_def cs)
      show ?thesis
      proof (cases h)
        case None
        have "open_anchor (finalizeEdgeNode l h p)"
          using l None by (simp add: open_anchor_finalize) (simp add: open_anchor_def)
        then have "trailing_anchor n1"
          using ch xs by (simp add: trailing_anchor_def)
        then show ?thesis using updateGraphNode_stable by blast
      next
        case (Some hn)
        then have "list_all (\<lambda>e. \<not> open_anchor e) (xs @ [finalizeEdgeNode l h p])"
          using xs by (simp add: open_anchor_finalize)
        moreover have "etype (finalizeEdgeNode l h p) = out_edge_node"
          using l by (simp add: open_anchor_def)
        ultimately show ?thesis using updateGraphNode_add [OF ch] by blast
      qed
    next
      case False
      with i have ilt: "i < length xs" by simp
      define y where "y = finalizeEdgeNode (xs ! i) h p"
      have ch: "gchildren n1 = take i xs @ y # drop (Suc i) xs @ [l]"
        using ilt by (simp add: n1_def cs y_def list_update_append nth_append upd_conv_take_nth_drop)
      have tk: "list_all (\<lambda>e. \<not> open_anchor e) (take i xs)"
        and dr: "list_all (\<lambda>e. \<not> open_anchor e) (drop (Suc i) xs)"
        using xs by (auto simp: list_all_iff dest: in_set_takeD in_set_dropD)
      show ?thesis
      proof (cases "open_anchor y")
        case True
        then show ?thesis using updateGraphNode_remove [OF ch True l tk dr] by blast
      next
        case False
        then have "trailing_anchor n1"
          using ch l tk dr by (simp add: trailing_anchor_def butlast_append)
        then show ?thesis using updateGraphNode_stable by blast
      qed
    qed
    with lift show ?thesis by blast
  qed
qed

lemma list_all2_mapi:
  "(\<And>i e. e \<in> set xs \<Longrightarrow> R e (f i e)) \<Longrightarrow> list_all2 R xs (mapi f xs)"
  by (induction xs arbitrary: f) (auto simp: mapi_Cons)

lemma node_shape_cons:
  "node_shape node \<longleftrightarrow> (\<exists>c cs. gchildren node = c # cs \<and> etype c = in_edge_node
      \<and> list_all (\<lambda>e. etype e = out_edge_node) cs)"
  by (auto simp: node_shape_def split: list.splits)

lemma kept_mapi_cond [simp]:
  "list_all2 (kept_or_translated node) xs
     (mapi (\<lambda>i e. if etype e = out_edge_node
                   then translatedFrame_edge e (d i, 0) (gworldMatrix node) else e) xs)"
  by (rule list_all2_mapi) (auto simp: kept_or_translated_def)

lemma kept_mapi_all:
  "list_all (\<lambda>e. etype e = out_edge_node) xs \<Longrightarrow>
   list_all2 (kept_or_translated node) xs
     (mapi (\<lambda>i e. translatedFrame_edge e (d i, 0) (gworldMatrix node)) xs)"
  by (rule list_all2_mapi) (auto simp: kept_or_translated_def list_all_iff)

lemma hd_mapi_cond:
  "etype c \<noteq> out_edge_node \<Longrightarrow>
   hd (mapi (\<lambda>i e. if etype e = out_edge_node then F i e else e) (c # cs)) = c"
  by (simp add: mapi_Cons)

lemma addEdgeNode_shape:
  assumes "node_shape node"
  shows "\<exists>n'. addEdgeNode node = Inr n'
           \<and> length (gchildren n') = length (gchildren node) + 1
           \<and> hd (gchildren n') = hd (gchildren node)
           \<and> list_all2 (kept_or_translated node) (gchildren node) (butlast (gchildren n'))"
proof -
  from assms obtain c cs where ch: "gchildren node = c # cs" and c: "etype c = in_edge_node"
    by (auto simp: node_shape_cons)
  show ?thesis
    unfolding addEdgeNode_def Let_def ch using c
    by (simp add: hd_mapi_cond hd_append)
qed

lemma removeEdgeNode_shape:
  assumes shape: "node_shape node" and idx: "index < length (gchildren node)"
    and out: "etype (gchildren node ! index) = out_edge_node"
  shows "length (gchildren (removeEdgeNode node index)) + 1 = length (gchildren node)
       \<and> hd (gchildren (removeEdgeNode node index)) = hd (gchildren node)
       \<and> list_all2 (kept_or_translated node)
            (take index (gchildren node) @ drop (Suc index) (gchildren node))
            (gchildren (removeEdgeNode node index))"
proof -
  from shape obtain c cs where ch: "gchildren node = c # cs" and c: "etype c = in_edge_node"
    and cs: "list_all (\<lambda>e. etype e = out_edge_node) cs"
    by (auto simp: node_shape_cons)
  from out c ch obtain j where j: "index = Suc j"
    by (cases index) auto
  let ?n = "length (gchildren node)"
  let ?b = "\<lambda>k e. if etype e = out_edge_node
                    then translatedFrame_edge e (2 * real k / (real ?n * (real ?n - 1)), 0) (gworldMatrix node)
                    else e"
  let ?a = "\<lambda>k e. translatedFrame_edge e
                 (- 2 * (real ?n - (real k + real index + 1)) / (real ?n * (real ?n - 1)), 0)
                 (gworldMatrix node)"
  have res: "gchildren (removeEdgeNode node index)
               = mapi ?b (take index (gchildren node)) @ mapi ?a (drop (index + 1) (gchildren node))"
    by (simp add: removeEdgeNode_def Let_def)
  have dr: "list_all (\<lambda>e. etype e = out_edge_node) (drop (Suc index) (gchildren node))"
    using cs by (auto simp: ch j list_all_iff dest: in_set_dropD)
  have 1: "length (gchildren (removeEdgeNode node index)) + 1 = length (gchildren node)"
    using idx by (simp add: res)
  have "take index (gchildren node) = c # take j cs" by (simp add: ch j)
  then have 2: "hd (gchildren (removeEdgeNode node index)) = hd (gchildren node)"
    using c by (simp add: res hd_append hd_mapi_cond ch)
  have 3: "list_all2 (kept_or_translated node)
            (take index (gchildren node) @ drop (Suc index) (gchildren node))
            (gchildren (removeEdgeNode node index))"
    unfolding res using kept_mapi_all [OF dr] 
    by (intro list_all2_appendI) simp_all
  from 1 2 3 show ?thesis by blast
qed

lemma findIndex_update:
  "i < length xs \<Longrightarrow> P y = P (xs ! i) \<Longrightarrow> findIndex P (xs[i := y]) = findIndex P xs"
  by (induction xs arbitrary: i) (auto simp: Let_def split: nat.splits)

lemma lift_children_twice:
  assumes key: "\<And>e. key_of (g e) = key_of e" and fg: "\<And>e. f (g e) = f e"
    and g: "lift_children key_of key (\<lambda>e. Inr (g e)) cs = Inr cs0"
  shows "lift_children key_of key (\<lambda>e. Inr (f e)) cs0 = lift_children key_of key (\<lambda>e. Inr (f e)) cs"
proof (cases "findIndex (\<lambda>c. key_of c = key) cs < 0")
  case True
  with g have "cs0 = cs" by (simp add: lift_children_def Let_def)
  then show ?thesis by simp
next
  case False
  define i where "i = nat (findIndex (\<lambda>c. key_of c = key) cs)"
  have i: "i < length cs"
    using False findIndex_bounds [of "\<lambda>c. key_of c = key" cs] by (simp add: i_def)
  from g False have cs0: "cs0 = cs[i := g (cs ! i)]"
    by (auto simp: lift_children_def Let_def i_def)
  have "findIndex (\<lambda>c. key_of c = key) cs0 = findIndex (\<lambda>c. key_of c = key) cs"
    unfolding cs0 using i by (intro findIndex_update) (simp_all add: key)
  then show ?thesis
    using False i by (simp add: lift_children_def Let_def cs0 i_def [symmetric] fg)
qed

lemma updateEdgeNode_absorb:
  "updateEdgeNode (updateEdgeNode e h' p') h p = updateEdgeNode e h p"
  "finalizeEdgeNode (updateEdgeNode e h' p') h p = finalizeEdgeNode e h p"
  "ekey (updateEdgeNode e h' p') = ekey e"
  by (simp_all add: updateEdgeNode_def finalizeEdgeNode_def Let_def)

lemma lift_node_after_move:
  assumes "lift_node key (\<lambda>e. Inr (updateEdgeNode e h' p')) node = Inr n0"
  shows "lift_node key (\<lambda>e. Inr (finalizeEdgeNode e h p)) n0
           = lift_node key (\<lambda>e. Inr (finalizeEdgeNode e h p)) node"
    and "lift_node key (\<lambda>e. Inr (updateEdgeNode e h p)) n0
           = lift_node key (\<lambda>e. Inr (updateEdgeNode e h p)) node"
proof -
  from assms obtain cs0 where
    cs0: "lift_children ekey key (\<lambda>e. Inr (updateEdgeNode e h' p')) (gchildren node) = Inr cs0"
    and n0: "n0 = node\<lparr>gchildren := cs0\<rparr>"
    by (auto simp: lift_node_def split: sum.splits)
  have 1: "lift_children ekey key (\<lambda>e. Inr (finalizeEdgeNode e h p)) cs0
         = lift_children ekey key (\<lambda>e. Inr (finalizeEdgeNode e h p)) (gchildren node)"
    by (rule lift_children_twice [OF _ _ cs0]) (simp_all add: updateEdgeNode_absorb)
  have 2: "lift_children ekey key (\<lambda>e. Inr (updateEdgeNode e h p)) cs0
         = lift_children ekey key (\<lambda>e. Inr (updateEdgeNode e h p)) (gchildren node)"
    by (rule lift_children_twice [OF _ _ cs0]) (simp_all add: updateEdgeNode_absorb)
  show "lift_node key (\<lambda>e. Inr (finalizeEdgeNode e h p)) n0
           = lift_node key (\<lambda>e. Inr (finalizeEdgeNode e h p)) node"
    by (simp add: lift_node_def n0 1 split: sum.splits)
  show "lift_node key (\<lambda>e. Inr (updateEdgeNode e h p)) n0
           = lift_node key (\<lambda>e. Inr (updateEdgeNode e h p)) node"
    by (simp add: lift_node_def n0 2 split: sum.splits)
qed

lemma lift_node_total:
  "\<exists>n'. lift_node key (\<lambda>e. Inr (f e)) node = Inr n'"
  by (simp add: lift_node_def lift_children_def Let_def)

lemma edge_move_cases:
  "edge_move key r \<Longrightarrow> \<exists>h' p'. r = LiftEdge key (UpdateEdgeNode h' p')"
  by (induction key r rule: edge_move.induct) simp_all

lemma moves_absorbed:
  assumes "list_all (edge_move key) moves"
  shows "run_node_reducers (moves @ [LiftEdge key (FinalizeEdgeNode h p), UpdateGraphNode]) node
       = run_node_reducers [LiftEdge key (FinalizeEdgeNode h p), UpdateGraphNode] node"
  using assms
proof (induction moves arbitrary: node)
  case Nil
  show ?case by simp
next
  case (Cons r moves)
  from Cons.prems obtain h' p' where r: "r = LiftEdge key (UpdateEdgeNode h' p')"
    using edge_move_cases by fastforce
  obtain n0 where n0: "lift_node key (\<lambda>e. Inr (updateEdgeNode e h' p')) node = Inr n0"
    using lift_node_total [of key "\<lambda>e. updateEdgeNode e h' p'" node] by blast
  have "run_node_reducers ((r # moves) @ [LiftEdge key (FinalizeEdgeNode h p), UpdateGraphNode]) node
      = run_node_reducers (moves @ [LiftEdge key (FinalizeEdgeNode h p), UpdateGraphNode]) n0"
    by (simp add: r n0)
  also have "\<dots> = run_node_reducers [LiftEdge key (FinalizeEdgeNode h p), UpdateGraphNode] n0"
    using Cons by simp
  also have "\<dots> = run_node_reducers [LiftEdge key (FinalizeEdgeNode h p), UpdateGraphNode] node"
    using lift_node_after_move(1) [OF n0, of h p] by simp
  finally show ?case .
qed

text \<open>
  C1: for every graph node that satisfies the trailing-anchor invariant, every key of an
  edge node, every hovered node (or none) and every position, the release of an edge drag
  (the lifted self reducer that sets or clears \<open>linkedTo\<close> and clears \<open>to\<close>) followed by
  \<open>updateGraphNode\<close> returns, without throwing, a graph node in which exactly one child is
  an out-edge-node without \<open>linkedTo\<close>, and that child is the last one. The same holds of
  a whole drag: the reducers of any number of \<open>mousemove\<close> samples on the edge, applied
  before those of the release, do not change the outcome.
\<close>

theorem edge_edit_repair:
  assumes "trailing_anchor node"
  shows "(\<exists>n1 n2. lift_node key (\<lambda>e. Inr (finalizeEdgeNode e h p)) node = Inr n1
             \<and> updateGraphNode n1 = Inr n2 \<and> trailing_anchor n2)
       \<and> (list_all (edge_move key) moves \<longrightarrow>
            (\<exists>n2. run_node_reducers
                     (moves @ [LiftEdge key (FinalizeEdgeNode h p), UpdateGraphNode]) node = Inr n2
                  \<and> trailing_anchor n2))"
proof -
  from release_repair [OF assms, of key h p] obtain n1 n2
    where r: "lift_node key (\<lambda>e. Inr (finalizeEdgeNode e h p)) node = Inr n1"
      "updateGraphNode n1 = Inr n2" "trailing_anchor n2" by blast
  then have "run_node_reducers [LiftEdge key (FinalizeEdgeNode h p), UpdateGraphNode] node = Inr n2"
    by simp
  then have "list_all (edge_move key) moves \<longrightarrow>
      run_node_reducers (moves @ [LiftEdge key (FinalizeEdgeNode h p), UpdateGraphNode]) node = Inr n2"
    by (simp add: moves_absorbed)
  with r show ?thesis by blast
qed

text \<open>
  Witness for C1: the open anchor (key 0) of a fresh node is dragged over empty space and
  then released over the in-edge-node of node 1.
\<close>

theorem edge_edit_repair_witness:
  "trailing_anchor (sample_node 0 False False) \<and>
   list_all (edge_move (Some 0)) [LiftEdge (Some 0) (UpdateEdgeNode None (Some (1, 1)))] \<and>
   (\<exists>n1 n2. lift_node (Some 0) (\<lambda>e. Inr (finalizeEdgeNode e (Some (sample_in_edge 1)) None))
               (sample_node 0 False False) = Inr n1
            \<and> updateGraphNode n1 = Inr n2 \<and> trailing_anchor n2) \<and>
   (\<exists>n2. run_node_reducers
            [LiftEdge (Some 0) (UpdateEdgeNode None (Some (1, 1))),
             LiftEdge (Some 0) (FinalizeEdgeNode (Some (sample_in_edge 1)) None),
             UpdateGraphNode] (sample_node 0 False False) = Inr n2
         \<and> trailing_anchor n2)"
proof -
  have pre: "trailing_anchor (sample_node 0 False False)"
    by (simp add: trailing_anchor_def open_anchor_def sample_node_def sample_out_edge_def
          sample_in_edge_def)
  have mv: "list_all (edge_move (Some 0)) [LiftEdge (Some 0) (UpdateEdgeNode None (Some (1, 1)))]"
    by simp
  from edge_edit_repair [OF pre, of "Some 0" "Some (sample_in_edge 1)" None
      "[LiftEdge (Some 0) (UpdateEdgeNode None (Some (1, 1)))]"] pre mv
  show ?thesis by simp
qed

text \<open>
  C10: for every graph node of the data model's shape (first child the in-edge-node, the
  others out-edge-nodes), \<open>addEdgeNode\<close> returns a node with one child more and
  \<open>removeEdgeNode\<close>, at the index of an out-edge-node, a node with one child less; in both
  the first child is the in-edge-node exactly as it was (matrix included), and every child
  kept is either unchanged or an out-edge-node translated along the node's first axis.
\<close>

theorem edge_repair_shape:
  assumes "node_shape node"
  shows "(\<exists>n'. addEdgeNode node = Inr n'
             \<and> length (gchildren n') = length (gchildren node) + 1
             \<and> hd (gchildren n') = hd (gchildren node)
             \<and> list_all2 (kept_or_translated node) (gchildren node) (butlast (gchildren n')))
       \<and> (\<forall>index. index < length (gchildren node)
               \<and> etype (gchildren node ! index) = out_edge_node \<longrightarrow>
             length (gchildren (removeEdgeNode node index)) + 1 = length (gchildren node)
             \<and> hd (gchildren (removeEdgeNode node index)) = hd (gchildren node)
             \<and> list_all2 (kept_or_translated node)
                  (take index (gchildren node) @ drop (Suc index) (gchildren node))
                  (gchildren (removeEdgeNode node index)))
       \<and> etype (hd (gchildren node)) = in_edge_node"
proof -
  have "etype (hd (gchildren node)) = in_edge_node"
    using assms by (auto simp: node_shape_cons)
  with addEdgeNode_shape [OF assms] removeEdgeNode_shape [OF assms] show ?thesis
    by blast
qed

text \<open>
  Witness for C10: a node with the in-edge-node, a linked out-edge-node and the open
  anchor; the out-edge-node at index 1 is removed.
\<close>

theorem edge_repair_shape_witness:
  "node_shape sample_linked_node \<and>
   (\<exists>n'. addEdgeNode sample_linked_node = Inr n'
        \<and> length (gchildren n') = 4
        \<and> hd (gchildren n') = sample_in_edge 0
        \<and> list_all2 (kept_or_translated sample_linked_node) (gchildren sample_linked_node)
             (butlast (gchildren n'))) \<and>
   length (gchildren (removeEdgeNode sample_linked_node 1)) = 2 \<and>
   hd (gchildren (removeEdgeNode sample_linked_node 1)) = sample_in_edge 0 \<and>
   list_all2 (kept_or_translated sample_linked_node)
     [sample_in_edge 0, (sample_out_edge 0)\<lparr>ekey := Some 1\<rparr>]
     (gchildren (removeEdgeNode sample_linked_node 1))"
proof -
  have pre: "node_shape sample_linked_node"
    by (simp add: node_shape_def sample_linked_node_def sample_in_edge_def linked_edge_def
          sample_out_edge_def)
  have ch: "gchildren sample_linked_node
              = [sample_in_edge 0, linked_edge 0 0 1, (sample_out_edge 0)\<lparr>ekey := Some 1\<rparr>]"
    by (simp add: sample_linked_node_def)
  have out: "etype (gchildren sample_linked_node ! 1) = out_edge_node"
    by (simp add: ch linked_edge_def)
  from edge_repair_shape [OF pre] have
    add: "\<exists>n'. addEdgeNode sample_linked_node = Inr n'
             \<and> length (gchildren n') = length (gchildren sample_linked_node) + 1
             \<and> hd (gchildren n') = hd (gchildren sample_linked_node)
             \<and> list_all2 (kept_or_translated sample_linked_node) (gchildren sample_linked_node)
                  (butlast (gchildren n'))"
    and rem: "1 < length (gchildren sample_linked_node)
               \<and> etype (gchildren sample_linked_node ! 1) = out_edge_node \<longrightarrow>
             length (gchildren (removeEdgeNode sample_linked_node 1)) + 1
               = length (gchildren sample_linked_node)
             \<and> hd (gchildren (removeEdgeNode sample_linked_node 1)) = hd (gchildren sample_linked_node)
             \<and> list_all2 (kept_or_translated sample_linked_node)
                  (take 1 (gchildren sample_linked_node) @ drop (Suc 1) (gchildren sample_linked_node))
                  (gchildren (removeEdgeNode sample_linked_node 1))"
    by blast+
  from rem out have
    "length (gchildren (removeEdgeNode sample_linked_node 1)) + 1 = 3
       \<and> hd (gchildren (removeEdgeNode sample_linked_node 1)) = sample_in_edge 0
       \<and> list_all2 (kept_or_translated sample_linked_node)
            [sample_in_edge 0, (sample_out_edge 0)\<lparr>ekey := Some 1\<rparr>]
            (gchildren (removeEdgeNode sample_linked_node 1))"
    by (simp add: ch)
  moreover from add have
    "\<exists>n'. addEdgeNode sample_linked_node = Inr n'
        \<and> length (gchildren n') = 4
        \<and> hd (gchildren n') = sample_in_edge 0
        \<and> list_all2 (kept_or_translated sample_linked_node) (gchildren sample_linked_node)
             (butlast (gchildren n'))"
    by (auto simp: ch)
  ultimately show ?thesis using pre by simp
qed

subsection \<open>Zoom\<close>

lemma mat_inv_identity: "mat_inv identity3 = Inr identity3"
  by (simp add: mat_inv_def identity3_def det3_def)

lemma vecFrameTrans_canvas:
  "vecFrameTrans v M identity3 = Inr (m00 M * fst v + m01 M * snd v, m10 M * fst v + m11 M * snd v)"
  by (simp add: vecFrameTrans_def mat_inv_identity) (simp add: identity3_def mat_mul_def)

lemma zoomScale_eq: "zoomScale plane = Inr (sqrt (unit_diagonal plane))"
  by (simp add: zoomScale_def vecFrameTrans_canvas unit_diagonal_def)

lemma scaling_pivot:
  "scaling (s, s) (Mat3 1 0 px  0 (-1) py  0 0 1)
     = Inr (Mat3 s 0 (px - s * px)  0 s (py - s * py)  0 0 1)"
  by (simp add: scaling_def mat_inv_def det3_def mat_mul_def algebra_simps)

lemma norm2_scale: "0 \<le> s \<Longrightarrow> norm2 (s * a, s * b) = s * norm2 (a, b)"
proof -
  assume s: "0 \<le> s"
  have "(s * a)\<^sup>2 + (s * b)\<^sup>2 = s\<^sup>2 * (a\<^sup>2 + b\<^sup>2)"
    by (simp add: power_mult_distrib algebra_simps)
  then show ?thesis using s
    by (simp add: norm2_def real_sqrt_mult)
qed

lemma unit_diagonal_scaled:
  assumes "affine (pworldMatrix plane)" "0 \<le> s"
  shows "unit_diagonal (transform_plane (Mat3 s 0 tx  0 s ty  0 0 1) plane) = s * unit_diagonal plane"
proof -
  have "unit_diagonal (transform_plane (Mat3 s 0 tx  0 s ty  0 0 1) plane)
          = norm2 (s * (m00 (pworldMatrix plane) + m01 (pworldMatrix plane)),
                   s * (m10 (pworldMatrix plane) + m11 (pworldMatrix plane)))"
    using assms(1) by (simp add: unit_diagonal_def transform_plane_def mat_mul_def affine_def algebra_simps)
  also have "\<dots> = s * norm2 (m00 (pworldMatrix plane) + m01 (pworldMatrix plane),
                   m10 (pworldMatrix plane) + m11 (pworldMatrix plane))"
    using assms(2) by (rule norm2_scale)
  finally show ?thesis by (simp add: unit_diagonal_def)
qed

lemma changeZoom_cases:
  assumes "affine (pworldMatrix plane)"
  shows "if (sqrt (unit_diagonal plane) < 5 \<and> deltaY event > 0)
            \<or> (sqrt (unit_diagonal plane) > 10 \<and> deltaY event < 0)
         then changeZoom event plane = Inr plane
         else (\<exists>plane'. changeZoom event plane = Inr plane'
                 \<and> unit_diagonal plane' = 1.1 powr (- deltaY event) * unit_diagonal plane)"
  using unit_diagonal_scaled [OF assms, of "1.1 powr (- deltaY event)"]
  by (simp add: changeZoom_def zoomScale_eq Let_def scaledFrame_plane_def scaling_pivot)

lemma changeZoom_value:
  "changeZoom event plane =
     (if (sqrt (unit_diagonal plane) < 5 \<and> deltaY event > 0)
         \<or> (sqrt (unit_diagonal plane) > 10 \<and> deltaY event < 0)
      then Inr plane
      else Inr (transform_plane
             (Mat3 (1.1 powr (- deltaY event)) 0
                   (fst (mousePos event) - 1.1 powr (- deltaY event) * fst (mousePos event))
                   0 (1.1 powr (- deltaY event))
                   (snd (mousePos event) - 1.1 powr (- deltaY event) * snd (mousePos event))
                   0 0 1) plane))"
  by (simp add: changeZoom_def zoomScale_eq Let_def scaledFrame_plane_def scaling_pivot)

lemma unit_diagonal_nonneg: "0 \<le> unit_diagonal plane"
  by (simp add: unit_diagonal_def norm2_def)

lemma short_diagonal_gated: "unit_diagonal plane < 5 \<Longrightarrow> sqrt (unit_diagonal plane) < 5"
  by (rule real_less_lsqrt) simp_all

lemma diagonal_in_range_open: "unit_diagonal plane \<le> 10 \<Longrightarrow> \<not> sqrt (unit_diagonal plane) > 10"
proof -
  assume "unit_diagonal plane \<le> 10"
  then have "unit_diagonal plane \<le> 10\<^sup>2" by simp
  then have "sqrt (unit_diagonal plane) \<le> 10" by (intro real_le_lsqrt) simp_all
  then show ?thesis by simp
qed

lemma changeZoom_scaled:
  assumes aff: "affine (pworldMatrix plane)"
    and open_gate: "\<not> ((sqrt (unit_diagonal plane) < 5 \<and> deltaY event > 0)
                     \<or> (sqrt (unit_diagonal plane) > 10 \<and> deltaY event < 0))"
  shows "\<exists>T. changeZoom event plane = Inr (transform_plane T plane)
           \<and> m00 T = 1.1 powr (- deltaY event) \<and> m01 T = 0
           \<and> m10 T = 0 \<and> m11 T = 1.1 powr (- deltaY event) \<and> affine T
           \<and> point_image T (mousePos event) = mousePos event
           \<and> unit_diagonal (transform_plane T plane)
               = 1.1 powr (- deltaY event) * unit_diagonal plane"
proof -
  let ?s = "1.1 powr (- deltaY event)"
  let ?T = "Mat3 ?s 0 (fst (mousePos event) - ?s * fst (mousePos event))
                 0 ?s (snd (mousePos event) - ?s * snd (mousePos event))
                 0 0 1"
  have 1: "changeZoom event plane = Inr (transform_plane ?T plane)"
    using open_gate by (simp only: changeZoom_value if_False)
  have 2: "point_image ?T (mousePos event) = mousePos event"
    by (simp add: point_image_def prod_eq_iff)
  have 3: "unit_diagonal (transform_plane ?T plane) = ?s * unit_diagonal plane"
    by (rule unit_diagonal_scaled [OF aff]) simp
  have 4: "m00 ?T = ?s \<and> m01 ?T = 0 \<and> m10 ?T = 0 \<and> m11 ?T = ?s \<and> affine ?T"
    by (simp add: affine_def)
  from 1 2 3 4 show ?thesis by blast
qed

text \<open>
  C4, as the code has it: for every plane whose matrix is affine and every wheel event,
  \<open>changeZoom\<close> returns either the plane unchanged or the plane scaled about the pointer
  by \<open>1.1\<close> to the power \<open>-deltaY\<close>: the transformation is that uniform scaling, it
  leaves the pointer's canvas position where it is, and it multiplies the on-screen length
  of the unit diagonal by the factor. The plane is unchanged when the diagonal is shorter
  than 5 pixels and \<open>deltaY\<close> is positive. The plane is scaled, with nothing bounding the
  length it reaches, when \<open>deltaY\<close> is negative and the diagonal is at most 10 pixels long,
  and when \<open>deltaY\<close> is zero.
\<close>

theorem changeZoom_gate:
  assumes "affine (pworldMatrix plane)"
  shows "(unit_diagonal plane < 5 \<and> deltaY event > 0 \<longrightarrow> changeZoom event plane = Inr plane)
       \<and> ((deltaY event < 0 \<and> unit_diagonal plane \<le> 10) \<or> deltaY event = 0 \<longrightarrow>
            (\<exists>T. changeZoom event plane = Inr (transform_plane T plane)
               \<and> m00 T = 1.1 powr (- deltaY event) \<and> m01 T = 0
               \<and> m10 T = 0 \<and> m11 T = 1.1 powr (- deltaY event) \<and> affine T
               \<and> point_image T (mousePos event) = mousePos event
               \<and> unit_diagonal (transform_plane T plane)
                   = 1.1 powr (- deltaY event) * unit_diagonal plane))
       \<and> (changeZoom event plane = Inr plane
            \<or> (\<exists>T. changeZoom event plane = Inr (transform_plane T plane)
               \<and> m00 T = 1.1 powr (- deltaY event) \<and> m01 T = 0
               \<and> m10 T = 0 \<and> m11 T = 1.1 powr (- deltaY event) \<and> affine T
               \<and> point_image T (mousePos event) = mousePos event
               \<and> unit_diagonal (transform_plane T plane)
                   = 1.1 powr (- deltaY event) * unit_diagonal plane))"
proof (intro conjI impI)
  assume "unit_diagonal plane < 5 \<and> deltaY event > 0"
  then show "changeZoom event plane = Inr plane"
    by (simp add: changeZoom_value short_diagonal_gated)
next
  assume "(deltaY event < 0 \<and> unit_diagonal plane \<le> 10) \<or> deltaY event = 0"
  then have "\<not> ((sqrt (unit_diagonal plane) < 5 \<and> deltaY event > 0)
                     \<or> (sqrt (unit_diagonal plane) > 10 \<and> deltaY event < 0))"
    using diagonal_in_range_open [of plane] by auto
  from changeZoom_scaled [OF assms this]
  show "\<exists>T. changeZoom event plane = Inr (transform_plane T plane)
               \<and> m00 T = 1.1 powr (- deltaY event) \<and> m01 T = 0
               \<and> m10 T = 0 \<and> m11 T = 1.1 powr (- deltaY event) \<and> affine T
               \<and> point_image T (mousePos event) = mousePos event
               \<and> unit_diagonal (transform_plane T plane)
                   = 1.1 powr (- deltaY event) * unit_diagonal plane" .
next
  show "changeZoom event plane = Inr plane
            \<or> (\<exists>T. changeZoom event plane = Inr (transform_plane T plane)
               \<and> m00 T = 1.1 powr (- deltaY event) \<and> m01 T = 0
               \<and> m10 T = 0 \<and> m11 T = 1.1 powr (- deltaY event) \<and> affine T
               \<and> point_image T (mousePos event) = mousePos event
               \<and> unit_diagonal (transform_plane T plane)
                   = 1.1 powr (- deltaY event) * unit_diagonal plane)"
  proof (cases "(sqrt (unit_diagonal plane) < 5 \<and> deltaY event > 0)
                     \<or> (sqrt (unit_diagonal plane) > 10 \<and> deltaY event < 0)")
    case True
    then show ?thesis by (simp add: changeZoom_value)
  next
    case False
    from changeZoom_scaled [OF assms False] show ?thesis by blast
  qed
qed

lemma sqrt_98_bounds: "sqrt 98 \<le> 10" "5 \<le> sqrt 98" "9.1 < sqrt 98" "sqrt (sqrt 98) \<le> 10"
proof -
  show b: "sqrt 98 \<le> 10" by (rule real_le_lsqrt) simp_all
  show "5 \<le> sqrt 98" by (rule real_le_rsqrt) simp
  show "9.1 < sqrt 98" by (rule real_less_rsqrt) (simp add: power2_eq_square)
  from b have "sqrt 98 \<le> 10\<^sup>2" by simp
  then show "sqrt (sqrt 98) \<le> 10" by (intro real_le_lsqrt) simp_all
qed

text \<open>
  Counterexample to C4 as stated: the unit diagonal of this plane is \<open>7\<surd>2\<close> pixels long,
  inside [5, 10]; after one wheel event with \<open>deltaY = -1\<close> it is longer than 10 pixels.
\<close>

theorem changeZoom_leaves_range:
  "unit_diagonal seven_pixel_plane \<le> 10 \<and> 5 \<le> unit_diagonal seven_pixel_plane \<and>
   (case changeZoom (sample_event\<lparr>deltaY := -1\<rparr>) seven_pixel_plane of
      Inl err \<Rightarrow> False
    | Inr plane' \<Rightarrow> 10 < unit_diagonal plane')"
proof -
  have a: "unit_diagonal seven_pixel_plane = sqrt 98"
    by (simp add: unit_diagonal_def seven_pixel_plane_def norm2_def)
  have aff: "affine (pworldMatrix seven_pixel_plane)"
    by (simp add: affine_def seven_pixel_plane_def)
  from changeZoom_cases [OF aff, of "sample_event\<lparr>deltaY := -1\<rparr>"] sqrt_98_bounds(4)
  obtain plane' where z: "changeZoom (sample_event\<lparr>deltaY := -1\<rparr>) seven_pixel_plane = Inr plane'"
    and d: "unit_diagonal plane' = 1.1 * sqrt 98"
    by (auto simp: a)
  have "10 < 1.1 * sqrt 98" using sqrt_98_bounds(3) by simp
  with z d a sqrt_98_bounds(1,2) show ?thesis by simp
qed

text \<open>
  Witness for C4: the plane seven pixels to the unit (diagonal \<open>7\<surd>2\<close> pixels), a wheel
  event with \<open>deltaY = -1\<close> and the pointer at (3, 4): the plane is scaled by 1.1 and the
  point (3, 4) stays where it is.
\<close>

theorem changeZoom_gate_witness:
  "affine (pworldMatrix seven_pixel_plane) \<and>
   deltaY (sample_event\<lparr>deltaY := -1, mousePos := (3, 4)\<rparr>) < 0 \<and>
   unit_diagonal seven_pixel_plane \<le> 10 \<and>
   (\<exists>T. changeZoom (sample_event\<lparr>deltaY := -1, mousePos := (3, 4)\<rparr>) seven_pixel_plane
           = Inr (transform_plane T seven_pixel_plane)
       \<and> m00 T = 1.1 \<and> m01 T = 0 \<and> m10 T = 0 \<and> m11 T = 1.1 \<and> affine T
       \<and> point_image T (3, 4) = (3, 4)
       \<and> unit_diagonal (transform_plane T seven_pixel_plane) = 1.1 * unit_diagonal seven_pixel_plane)"
proof -
  have aff: "affine (pworldMatrix seven_pixel_plane)"
    by (simp add: affine_def seven_pixel_plane_def)
  have a: "unit_diagonal seven_pixel_plane \<le> 10"
    using sqrt_98_bounds(1) by (simp add: unit_diagonal_def seven_pixel_plane_def norm2_def)
  have d: "deltaY (sample_event\<lparr>deltaY := -1, mousePos := (3, 4)\<rparr>) < 0" by simp
  from changeZoom_gate [OF aff, of "sample_event\<lparr>deltaY := -1, mousePos := (3, 4)\<rparr>"] a
  have "\<exists>T. changeZoom (sample_event\<lparr>deltaY := -1, mousePos := (3, 4)\<rparr>) seven_pixel_plane
           = Inr (transform_plane T seven_pixel_plane)
       \<and> m00 T = 1.1 \<and> m01 T = 0 \<and> m10 T = 0 \<and> m11 T = 1.1 \<and> affine T
       \<and> point_image T (3, 4) = (3, 4)
       \<and> unit_diagonal (transform_plane T seven_pixel_plane) = 1.1 * unit_diagonal seven_pixel_plane"
    by simp
  with aff a d show ?thesis by blast
qed

subsection \<open>Resize\<close>

lemma withWorldMatrix_window_axis:
  assumes "wworldMatrix win = Mat3 a 0 c  0 b d  0 0 1" "a \<noteq> 0" "b \<noteq> 0"
  shows "withWorldMatrix_window win M
           = Inr (win\<lparr>wworldMatrix := M,
                      wplane := transform_plane
                        (mat_mul M (Mat3 (1 / a) 0 (- c / a)  0 (1 / b) (- d / b)  0 0 1)) (wplane win)\<rparr>)"
  using assms by (simp add: withWorldMatrix_window_def mat_inv_def det3_def)

lemma resizeState_axis:
  assumes win: "wworldMatrix (rwindow tree) = Mat3 a 0 c  0 b d  0 0 1" and a: "a \<noteq> 0" and b: "b \<noteq> 0"
    and aff: "affine (pworldMatrix (wplane (rwindow tree)))"
    and w: "w \<noteq> 0" and p00: "m00 (pworldMatrix (wplane (rwindow tree))) \<noteq> 0"
  shows "\<exists>tree'. resizeState tree w h = Inr tree'
           \<and> canvas tree' = canvas tree \<and> width tree' = Some w \<and> height tree' = Some h
           \<and> wworldMatrix (rwindow tree') = window_matrix w h
           \<and> m11 (pworldMatrix (wplane (rwindow tree')))
               = ((- h / 2) / b) * m11 (pworldMatrix (wplane (rwindow tree)))
           \<and> m00 (pworldMatrix (wplane (rwindow tree')))
               = - m11 (pworldMatrix (wplane (rwindow tree')))"
  using aff a b w p00
  unfolding resizeState_def withWorldMatrix_window_axis [OF win a b] window_matrix_def
  by (simp add: Let_def scaledFrame_plane_def scaling_def mat_inv_def det3_def
        transform_plane_def mat_mul_def affine_def)

text \<open>
  Counterexample to C8 as stated: the test application's initial state is sized to 800 by
  600 pixels and then resized to 400 by 300 pixels. The plane's unit diagonal is twice as
  long on screen before the second resize as after it (30 pixels to the plane unit before,
  15 after).
\<close>

theorem resize_halves_plane_scale:
  "resizeState sample_root 800 600 = Inr root_800_600 \<and>
   resizeState root_800_600 400 300 = Inr root_400_300 \<and>
   unit_diagonal (wplane (rwindow root_800_600)) = 2 * unit_diagonal (wplane (rwindow root_400_300)) \<and>
   0 < unit_diagonal (wplane (rwindow root_400_300))"
proof -
  have 1: "resizeState sample_root 800 600 = Inr root_800_600"
    by (simp add: resizeState_def withWorldMatrix_window_def mat_inv_def det3_def identity3_def
          sample_root_def sample_plane_def root_800_600_def scaledFrame_plane_def scaling_def
          transform_plane_def mat_mul_def Let_def)
  have 2: "resizeState root_800_600 400 300 = Inr root_400_300"
    by (simp add: resizeState_def withWorldMatrix_window_def mat_inv_def det3_def
          root_800_600_def root_400_300_def scaledFrame_plane_def scaling_def
          transform_plane_def mat_mul_def Let_def)
  have "unit_diagonal (wplane (rwindow root_800_600)) = norm2 (2 * 15, 2 * (-15))"
    by (simp add: unit_diagonal_def root_800_600_def)
  also have "\<dots> = 2 * norm2 (15, -15)" by (rule norm2_scale) simp
  finally have 3: "unit_diagonal (wplane (rwindow root_800_600))
                     = 2 * unit_diagonal (wplane (rwindow root_400_300))"
    by (simp add: unit_diagonal_def root_400_300_def)
  have 4: "0 < unit_diagonal (wplane (rwindow root_400_300))"
    by (simp add: unit_diagonal_def root_400_300_def norm2_def)
  from 1 2 3 4 show ?thesis by simp
qed

text \<open>
  C8, as the code has it: for every tree whose window matrix is
  \<open>[[a, 0, c], [0, b, d], [0, 0, 1]]\<close> with \<open>a\<close> and \<open>b\<close> nonzero (the identity of the
  initial state, or the matrix of an earlier resize) and whose plane matrix is affine with
  a nonzero \<open>[0][0]\<close> entry, and every resize to a nonzero width, \<open>resizeState\<close> returns a
  tree whose window matrix is \<open>[[w/2, 0, w/2], [0, -h/2, h/2], [0, 0, 1]]\<close>; the plane's
  vertical scale is multiplied by the ratio of the new to the old vertical window factor,
  and its horizontal scale is set to minus its vertical scale.
\<close>

theorem resizeState_window_and_plane:
  assumes "wworldMatrix (rwindow tree) = Mat3 a 0 c  0 b d  0 0 1" and "a \<noteq> 0" and "b \<noteq> 0"
    and "affine (pworldMatrix (wplane (rwindow tree)))"
    and "w \<noteq> 0" and "m00 (pworldMatrix (wplane (rwindow tree))) \<noteq> 0"
  shows "\<exists>tree'. resizeState tree w h = Inr tree'
           \<and> wworldMatrix (rwindow tree') = Mat3 (w / 2) 0 (w / 2)  0 (- h / 2) (h / 2)  0 0 1
           \<and> m11 (pworldMatrix (wplane (rwindow tree')))
               = ((- h / 2) / b) * m11 (pworldMatrix (wplane (rwindow tree)))
           \<and> m00 (pworldMatrix (wplane (rwindow tree')))
               = - m11 (pworldMatrix (wplane (rwindow tree')))"
  using resizeState_axis [OF assms, of h] by (auto simp: window_matrix_def)

text \<open>
  Witness for C8: the resize from 800 by 600 to 400 by 300 halves the window's scale
  factors (400 and -300 become 200 and -150) and the plane's (30 and -30 become 15 and -15).
\<close>

theorem resizeState_window_and_plane_witness:
  "wworldMatrix (rwindow root_800_600) = Mat3 400 0 400  0 (-300) 300  0 0 1 \<and>
   affine (pworldMatrix (wplane (rwindow root_800_600))) \<and>
   m00 (pworldMatrix (wplane (rwindow root_800_600))) = 30 \<and>
   m11 (pworldMatrix (wplane (rwindow root_800_600))) = -30 \<and>
   (\<exists>tree'. resizeState root_800_600 400 300 = Inr tree'
       \<and> wworldMatrix (rwindow tree') = Mat3 200 0 200  0 (-150) 150  0 0 1
       \<and> m11 (pworldMatrix (wplane (rwindow tree'))) = -15
       \<and> m00 (pworldMatrix (wplane (rwindow tree'))) = 15)"
proof -
  have w: "wworldMatrix (rwindow root_800_600) = Mat3 400 0 400  0 (-300) 300  0 0 1"
    and aff: "affine (pworldMatrix (wplane (rwindow root_800_600)))"
    and p00: "m00 (pworldMatrix (wplane (rwindow root_800_600))) = 30"
    and p11: "m11 (pworldMatrix (wplane (rwindow root_800_600))) = -30"
    by (simp_all add: root_800_600_def affine_def)
  from resizeState_window_and_plane [OF w _ _ aff, of 400 300] p00 p11
  have "\<exists>tree'. resizeState root_800_600 400 300 = Inr tree'
       \<and> wworldMatrix (rwindow tree') = Mat3 200 0 200  0 (-150) 150  0 0 1
       \<and> m11 (pworldMatrix (wplane (rwindow tree'))) = -15
       \<and> m00 (pworldMatrix (wplane (rwindow tree'))) = 15"
    by auto
  with w aff p00 p11 show ?thesis by simp
qed

subsection \<open>At most one active node\<close>

lemma one_active_children_cong:
  "map gdata cs' = map gdata cs \<Longrightarrow>
     length (filter (\<lambda>n. active (gdata n)) cs') = length (filter (\<lambda>n. active (gdata n)) cs)
     \<and> list_all (\<lambda>n. active (gdata n) \<longrightarrow> selected (gdata n)) cs'
       = list_all (\<lambda>n. active (gdata n) \<longrightarrow> selected (gdata n)) cs"
proof (induction cs' arbitrary: cs)
  case Nil
  then show ?case by simp
next
  case (Cons c' cs')
  then obtain c ds where "cs = c # ds" by (cases cs) auto
  with Cons show ?case by auto
qed

lemma one_active_cong:
  "map gdata (pchildren p') = map gdata (pchildren p) \<Longrightarrow> one_active p' = one_active p"
  using one_active_children_cong [of "pchildren p'" "pchildren p"]
  by (simp add: one_active_def)

lemma one_active_none:
  "list_all (\<lambda>n. \<not> active (gdata n)) (pchildren p) \<Longrightarrow> one_active p"
proof -
  assume a: "list_all (\<lambda>n. \<not> active (gdata n)) (pchildren p)"
  then have "filter (\<lambda>n. active (gdata n)) (pchildren p) = []"
    by (simp add: filter_empty_conv list_all_iff)
  with a show ?thesis by (simp add: one_active_def list_all_iff)
qed

lemma one_active_front:
  "active (gdata c) \<Longrightarrow> selected (gdata c) \<Longrightarrow> list_all (\<lambda>n. \<not> active (gdata n)) cs \<Longrightarrow>
     one_active (p\<lparr>pchildren := c # cs\<rparr>)"
proof -
  assume c: "active (gdata c)" "selected (gdata c)" and a: "list_all (\<lambda>n. \<not> active (gdata n)) cs"
  then have "filter (\<lambda>n. active (gdata n)) cs = []"
    by (simp add: filter_empty_conv list_all_iff)
  with a c show ?thesis by (simp add: one_active_def list_all_iff)
qed

lemma gdata_transform_node [simp]: "gdata (transform_node T n) = gdata n"
  by (simp add: transform_node_def)

lemma deselectNode_inactive [simp]: "\<not> active (gdata (deselectNode n))"
  by (simp add: deselectNode_def)

lemma selectNode_flags [simp]:
  "active (gdata (selectNode n))" "selected (gdata (selectNode n))"
  by (simp_all add: selectNode_def)

lemma one_active_deselectGraphNodes: "one_active (deselectGraphNodes p)"
  by (rule one_active_none) (simp add: deselectGraphNodes_def list_all_iff)

lemma one_active_dragPlane: "one_active (dragPlane p dx dy)"
  by (rule one_active_none) (simp add: dragPlane_def Let_def list_all_iff)

lemma one_active_dragNodes: "one_active (dragNodes dx dy p) = one_active p"
  by (rule one_active_cong)
     (simp add: dragNodes_def movedNode_def translatedFrame_node_def o_def if_distrib cong: if_cong)

lemma one_active_transform_plane: "one_active (transform_plane T p) = one_active p"
  by (rule one_active_cong) (simp add: transform_plane_def o_def)

lemma one_active_changeZoom:
  "changeZoom e p = Inr p' \<Longrightarrow> one_active p' = one_active p"
  by (auto simp: changeZoom_def scaledFrame_plane_def Let_def one_active_transform_plane
           split: sum.splits if_splits)

lemma findIndex_found:
  "\<exists>x \<in> set xs. P x \<Longrightarrow>
     0 \<le> findIndex P xs \<and> nat (findIndex P xs) < length xs \<and> P (xs ! nat (findIndex P xs))"
proof (induction xs)
  case Nil
  then show ?case by simp
next
  case (Cons x xs)
  show ?case
  proof (cases "P x")
    case True
    then show ?thesis by simp
  next
    case False
    with Cons.prems have "\<exists>x \<in> set xs. P x" by simp
    from Cons.IH [OF this] False show ?thesis
      by (simp add: Let_def nat_add_distrib)
  qed
qed

lemma moveTop_present:
  assumes "key \<in> gkey ` set (pchildren p)"
  shows "\<exists>c rest. pchildren (moveTop key p) = c # rest \<and> gkey c = key
           \<and> moveTop key p = p\<lparr>pchildren := c # rest\<rparr>"
proof -
  from assms have "\<exists>c \<in> set (pchildren p). gkey c = key" by auto
  from findIndex_found [OF this] show ?thesis
    by (simp add: moveTop_def Let_def)
qed

lemma moveTop_absent:
  "key \<notin> gkey ` set (pchildren p) \<Longrightarrow> moveTop key p = p"
proof -
  assume "key \<notin> gkey ` set (pchildren p)"
  then have "\<forall>c \<in> set (pchildren p). \<not> gkey c = key" by auto
  then have "findIndex (\<lambda>c. gkey c = key) (pchildren p) < 0" by (simp add: findIndex_none)
  then show ?thesis by (simp add: moveTop_def Let_def)
qed

lemma one_active_makeActive_present:
  assumes "key \<in> gkey ` set (pchildren p)"
  shows "one_active (makeActive key p)"
proof -
  from moveTop_present [OF assms] obtain c rest
    where m: "moveTop key p = p\<lparr>pchildren := c # rest\<rparr>" and k: "gkey c = key" by blast
  have "makeActive key p
          = p\<lparr>pchildren := selectNode c # map (\<lambda>c. c\<lparr>gdata := (gdata c)\<lparr>active := False\<rparr>\<rparr>) rest\<rparr>"
    using k by (simp add: makeActive_def m Let_def)
  moreover have "one_active (p\<lparr>pchildren := selectNode c # map (\<lambda>c. c\<lparr>gdata := (gdata c)\<lparr>active := False\<rparr>\<rparr>) rest\<rparr>)"
    by (rule one_active_front) (simp_all add: list_all_iff)
  ultimately show ?thesis by simp
qed

lemma makeActive_absent:
  "key \<notin> gkey ` set (pchildren p) \<Longrightarrow> makeActive key p = p"
  by (cases "pchildren p") (auto simp: makeActive_def moveTop_absent Let_def)

lemma one_active_makeActive: "one_active p \<Longrightarrow> one_active (makeActive key p)"
  by (cases "key \<in> gkey ` set (pchildren p)")
     (simp_all add: one_active_makeActive_present makeActive_absent)

lemma one_active_makeOnlySelected_present:
  assumes "key \<in> gkey ` set (pchildren p)"
  shows "one_active (makeOnlySelected key p)"
proof -
  from moveTop_present [OF assms] obtain c rest
    where m: "moveTop key p = p\<lparr>pchildren := c # rest\<rparr>" and k: "gkey c = key" by blast
  have "makeOnlySelected key p = p\<lparr>pchildren := selectNode c # map deselectNode rest\<rparr>"
    using k by (simp add: makeOnlySelected_def m Let_def)
  moreover have "one_active (p\<lparr>pchildren := selectNode c # map deselectNode rest\<rparr>)"
    by (rule one_active_front) (simp_all add: list_all_iff)
  ultimately show ?thesis by simp
qed

lemma makeOnlySelected_absent:
  "key \<notin> gkey ` set (pchildren p) \<Longrightarrow> makeOnlySelected key p = p"
  by (cases "pchildren p") (auto simp: makeOnlySelected_def moveTop_absent Let_def)

lemma one_active_makeOnlySelected: "one_active p \<Longrightarrow> one_active (makeOnlySelected key p)"
  by (cases "key \<in> gkey ` set (pchildren p)")
     (simp_all add: one_active_makeOnlySelected_present makeOnlySelected_absent)

lemma lift_plane_cases:
  assumes "lift_plane key r p = Inr p'"
  shows "p' = p \<or> (\<exists>i c'. i < length (pchildren p) \<and> r (pchildren p ! i) = Inr c'
                        \<and> p' = p\<lparr>pchildren := (pchildren p)[i := c']\<rparr>)"
proof (cases "findIndex (\<lambda>c. gkey c = key) (pchildren p) < 0")
  case True
  with assms show ?thesis by (simp add: lift_plane_def lift_children_def Let_def)
next
  case False
  then have "nat (findIndex (\<lambda>c. gkey c = key) (pchildren p)) < length (pchildren p)"
    using findIndex_bounds [of "\<lambda>c. gkey c = key" "pchildren p"] by simp
  with assms False show ?thesis
    by (auto simp: lift_plane_def lift_children_def Let_def split: sum.splits)
qed

lemma filter_update_le:
  "\<not> P y \<Longrightarrow> length (filter P (xs[i := y])) \<le> length (filter P xs)"
  by (induction xs arbitrary: i) (auto split: nat.splits)

lemma one_active_update:
  assumes "one_active p" "active (gdata c') \<longrightarrow> active (gdata (pchildren p ! i)) \<and> selected (gdata c')"
    "i < length (pchildren p)"
  shows "one_active (p\<lparr>pchildren := (pchildren p)[i := c']\<rparr>)"
proof (cases "active (gdata c')")
  case False
  then have "length (filter (\<lambda>n. active (gdata n)) ((pchildren p)[i := c']))
               \<le> length (filter (\<lambda>n. active (gdata n)) (pchildren p))"
    by (intro filter_update_le) simp
  moreover have "list_all (\<lambda>n. active (gdata n) \<longrightarrow> selected (gdata n)) ((pchildren p)[i := c'])"
    using assms(1) False
    by (auto simp: one_active_def list_all_iff dest!: set_update_subset_insert [THEN subsetD])
  ultimately show ?thesis using assms(1) by (simp add: one_active_def)
next
  case True
  with assms(2) have a: "active (gdata (pchildren p ! i))" and s: "selected (gdata c')" by simp_all
  have "\<And>xs. i < length xs \<Longrightarrow> active (gdata (xs ! i)) \<Longrightarrow>
          length (filter (\<lambda>n. active (gdata n)) (xs[i := c']))
            = length (filter (\<lambda>n. active (gdata n)) xs)"
  proof -
    fix xs :: "graph_node list"
    show "i < length xs \<Longrightarrow> active (gdata (xs ! i)) \<Longrightarrow>
          length (filter (\<lambda>n. active (gdata n)) (xs[i := c']))
            = length (filter (\<lambda>n. active (gdata n)) xs)"
      using True by (induction xs arbitrary: i) (auto split: nat.splits)
  qed
  from this [OF assms(3) a]
  have "length (filter (\<lambda>n. active (gdata n)) ((pchildren p)[i := c']))
               = length (filter (\<lambda>n. active (gdata n)) (pchildren p))" .
  moreover have "list_all (\<lambda>n. active (gdata n) \<longrightarrow> selected (gdata n)) ((pchildren p)[i := c'])"
    using assms(1) s
    by (auto simp: one_active_def list_all_iff dest!: set_update_subset_insert [THEN subsetD])
  ultimately show ?thesis using assms(1) by (simp add: one_active_def)
qed

lemma lift_node_gdata: "lift_node k r n = Inr n' \<Longrightarrow> gdata n' = gdata n \<and> gkey n' = gkey n"
  by (auto simp: lift_node_def split: sum.splits)

lemma updateGraphNode_gdata: "updateGraphNode n = Inr n' \<Longrightarrow> gdata n' = gdata n \<and> gkey n' = gkey n"
  by (auto simp: updateGraphNode_def addEdgeNode_def removeEdgeNode_def Let_def split: if_splits)

lemma map_gdata_update:
  "i < length cs \<Longrightarrow> gdata c' = gdata (cs ! i) \<Longrightarrow> map gdata (cs[i := c']) = map gdata cs"
  by (simp add: map_update list_update_same_conv)

lemma one_active_lift_node:
  assumes inv: "one_active p" and r: "r \<noteq> SelectNode"
    and ap: "lift_plane key (apply_node_reducer r) p = Inr p'"
  shows "one_active p'"
proof -
  from lift_plane_cases [OF ap] show ?thesis
  proof
    assume "p' = p"
    with inv show ?thesis by simp
  next
    assume "\<exists>i c'. i < length (pchildren p) \<and> apply_node_reducer r (pchildren p ! i) = Inr c'
                     \<and> p' = p\<lparr>pchildren := (pchildren p)[i := c']\<rparr>"
    then obtain i c' where i: "i < length (pchildren p)"
      and c': "apply_node_reducer r (pchildren p ! i) = Inr c'"
      and p': "p' = p\<lparr>pchildren := (pchildren p)[i := c']\<rparr>" by blast
    show ?thesis
    proof (cases r)
      case SelectNode
      with r show ?thesis by simp
    next
      case DeselectNode
      with c' have "\<not> active (gdata c')" by auto
      then show ?thesis unfolding p' using inv i by (intro one_active_update) simp_all
    next
      case (LiftEdge k er)
      with c' have "gdata c' = gdata (pchildren p ! i)" by (simp add: lift_node_gdata)
      then have "map gdata (pchildren p') = map gdata (pchildren p)"
        using i by (simp add: p' map_gdata_update)
      from one_active_cong [OF this] inv show ?thesis by simp
    next
      case UpdateGraphNode
      with c' have "gdata c' = gdata (pchildren p ! i)" by (simp add: updateGraphNode_gdata)
      then have "map gdata (pchildren p') = map gdata (pchildren p)"
        using i by (simp add: p' map_gdata_update)
      from one_active_cong [OF this] inv show ?thesis by simp
    qed
  qed
qed

lemma one_active_reducer:
  assumes "one_active s" "\<not> lone_select m" "apply_plane_reducer m s = Inr s'"
  shows "one_active s'"
proof (cases m)
  case (LiftNode key r)
  with assms(2) have "r \<noteq> SelectNode" by auto
  with assms LiftNode show ?thesis by (auto intro: one_active_lift_node)
next
  case (MakeActive key)
  with assms show ?thesis by (auto simp: one_active_makeActive)
next
  case (MakeOnlySelected key)
  with assms show ?thesis by (auto simp: one_active_makeOnlySelected)
next
  case (DragNodes dx dy)
  with assms show ?thesis by (auto simp: one_active_dragNodes)
next
  case (ChangeZoom e)
  with assms(3) have "changeZoom e s = Inr s'" by simp
  from one_active_changeZoom [OF this] assms(1) show ?thesis by simp
next
  case (DragPlane dx dy)
  with assms show ?thesis by (auto simp: one_active_dragPlane)
next
  case DeselectGraphNodes
  with assms show ?thesis by (auto simp: one_active_deselectGraphNodes)
qed

lemma lift_select_keys:
  assumes "apply_plane_reducer (LiftNode key SelectNode) s = Inr s'"
  shows "gkey ` set (pchildren s') = gkey ` set (pchildren s)"
proof -
  have "apply_node_reducer SelectNode = (\<lambda>n. Inr (selectNode n))" by (rule ext) simp
  with assms have "lift_plane key (\<lambda>n. Inr (selectNode n)) s = Inr s'" by simp
  from lift_plane_cases [OF this] show ?thesis
  proof
    assume "s' = s" then show ?thesis by simp
  next
    assume "\<exists>i c'. i < length (pchildren s) \<and> Inr (selectNode (pchildren s ! i)) = Inr c'
                     \<and> s' = s\<lparr>pchildren := (pchildren s)[i := c']\<rparr>"
    then obtain i where i: "i < length (pchildren s)"
      and s': "s' = s\<lparr>pchildren := (pchildren s)[i := selectNode (pchildren s ! i)]\<rparr>" by auto
    have "map gkey (pchildren s') = map gkey (pchildren s)"
      using i by (simp add: s' map_update list_update_same_conv selectNode_def)
    then have "set (map gkey (pchildren s')) = set (map gkey (pchildren s))" by simp
    then show ?thesis by simp
  qed
qed

lemma moveStart_safe: "list_all (\<lambda>m. \<not> lone_select m) (moveStart state move)"
  by (cases move) (simp_all add: moveStart_def)

lemma moveEnd_safe: "list_all (\<lambda>m. \<not> lone_select m) (moveEnd move)"
  by (simp add: moveEnd_def list_all_iff)

lemma GraphEdge_no_select: "SelectNode \<notin> set (GraphEdge state samples)"
  by (auto simp: GraphEdge_def edge_drag_def split: if_splits)

lemma lone_select_LiftNode [simp]: "lone_select (LiftNode k r) = (r = SelectNode)"
  by (cases r) simp_all

lemma GraphPlane_emits:
  "list_all (\<lambda>m. \<not> lone_select m) (GraphPlane s ev)
   \<or> (\<exists>k \<in> gkey ` set (pchildren s). GraphPlane s ev = [LiftNode k SelectNode, MakeActive k])"
proof (cases ev)
  case (Wheel e)
  then show ?thesis by simp
next
  case (PlaneDrag move)
  then show ?thesis by (simp add: list_all_iff)
next
  case PlaneSingleClick
  then show ?thesis by simp
next
  case (ChildEvent i nev)
  show ?thesis
  proof (cases "i < length (pchildren s)")
    case False
    with ChildEvent show ?thesis by simp
  next
    case True
    then have key: "\<exists>c \<in> set (pchildren s). gkey (pchildren s ! i) = gkey c"
      using nth_mem by blast
    show ?thesis
    proof (cases nev)
      case (SingleClick e)
      with ChildEvent True key show ?thesis by (simp add: Let_def)
    next
      case (NodeDrag move)
      with ChildEvent True show ?thesis
        by (simp add: Let_def moveStart_safe moveEnd_safe)
    next
      case (EdgeDrag j samples)
      have "list_all (\<lambda>m. \<not> lone_select m)
              (map (LiftNode (gkey (pchildren s ! i))) (GraphEdge (gchildren (pchildren s ! i) ! j) samples))"
        using GraphEdge_no_select [of "gchildren (pchildren s ! i) ! j" samples]
        by (auto simp: list_all_iff)
      with ChildEvent True EdgeDrag show ?thesis by (simp add: Let_def)
    qed
  qed
qed

lemma step_config_ok:
  assumes "step c c'" "config_ok c"
  shows "config_ok c'"
  using assms
proof (induction rule: step.induct)
  case (emit s ev)
  then have "one_active s" by (auto simp: config_ok_def)
  with GraphPlane_emits [of s ev] show ?case by (auto simp: config_ok_def)
next
  case (reduce m s s' ms)
  from reduce.prems consider
      (safe) "one_active s" "list_all (\<lambda>m. \<not> lone_select m) (m # ms)"
    | (pair) k where "one_active s" "k \<in> gkey ` set (pchildren s)"
        "m = LiftNode k SelectNode" "ms = [MakeActive k]"
    | (repair) k where "k \<in> gkey ` set (pchildren s)" "m = MakeActive k" "ms = []"
    by (auto simp: config_ok_def)
  then show ?case
  proof cases
    case safe
    with reduce.hyps have "one_active s'" by (auto intro: one_active_reducer)
    with safe show ?thesis by (simp add: config_ok_def)
  next
    case pair
    with reduce.hyps lift_select_keys [of k s s'] show ?thesis
      by (auto simp: config_ok_def)
  next
    case repair
    with reduce.hyps have "one_active s'" by (auto simp: one_active_makeActive_present)
    with repair show ?thesis by (simp add: config_ok_def)
  qed
qed

text \<open>
  C5, as the code has it: from a seed plane in which at most one graph node is active and
  every active node is selected, every configuration reached by taking events and applying
  the emitted reducers one at a time, in emission order, has a plane with the same
  property, unless the reducer pending next is the \<open>makeActive\<close> of a shift-click, whose
  lifted \<open>selectNode\<close> has just been applied.
\<close>

theorem one_active_reachable:
  assumes "one_active seed" and "step\<^sup>*\<^sup>* (seed, []) (s, pending)"
  shows "one_active s \<or> (\<exists>k. pending = [MakeActive k])"
proof -
  have "config_ok (seed, [])" using assms(1) by (simp add: config_ok_def)
  with assms(2) have "config_ok (s, pending)"
    by (induction rule: rtranclp_induct) (auto intro: step_config_ok)
  then show ?thesis by (auto simp: config_ok_def)
qed

lemma shift_click_emits:
  "GraphPlane (sample_plane [sample_node 0 True True, sample_node 1 False False])
     (ChildEvent 1 (SingleClick (sample_event\<lparr>shiftKey := True\<rparr>)))
   = [LiftNode 1 SelectNode, MakeActive 1]"
  by (simp add: sample_plane_def sample_node_def sample_event_def Let_def)

lemma shift_click_select:
  "apply_plane_reducer (LiftNode 1 SelectNode)
     (sample_plane [sample_node 0 True True, sample_node 1 False False])
   = Inr (sample_plane [sample_node 0 True True, sample_node 1 True True])"
  by (simp add: sample_plane_def sample_node_def lift_plane_def lift_children_def Let_def
        selectNode_def)

lemma shift_click_makeActive:
  "apply_plane_reducer (MakeActive 1)
     (sample_plane [sample_node 0 True True, sample_node 1 True True])
   = Inr (sample_plane [sample_node 1 True True, sample_node 0 True False])"
  by (simp add: sample_plane_def sample_node_def makeActive_def moveTop_def Let_def selectNode_def)

lemma shift_click_steps:
  "step\<^sup>*\<^sup>* (sample_plane [sample_node 0 True True, sample_node 1 False False], [])
          (sample_plane [sample_node 0 True True, sample_node 1 True True], [MakeActive 1])"
  "step (sample_plane [sample_node 0 True True, sample_node 1 True True], [MakeActive 1])
        (sample_plane [sample_node 1 True True, sample_node 0 True False], [])"
proof -
  let ?s0 = "sample_plane [sample_node 0 True True, sample_node 1 False False]"
  let ?s1 = "sample_plane [sample_node 0 True True, sample_node 1 True True]"
  let ?s2 = "sample_plane [sample_node 1 True True, sample_node 0 True False]"
  have "step (?s0, []) (?s0, GraphPlane ?s0 (ChildEvent 1 (SingleClick (sample_event\<lparr>shiftKey := True\<rparr>))))"
    by (rule step.emit)
  then have 1: "step (?s0, []) (?s0, [LiftNode 1 SelectNode, MakeActive 1])"
    by (simp only: shift_click_emits)
  have 2: "step (?s0, [LiftNode 1 SelectNode, MakeActive 1]) (?s1, [MakeActive 1])"
    using shift_click_select by (rule step.reduce)
  from 1 2 show "step\<^sup>*\<^sup>* (?s0, []) (?s1, [MakeActive 1])" by simp
  show "step (?s1, [MakeActive 1]) (?s2, [])"
    using shift_click_makeActive by (rule step.reduce)
qed

text \<open>
  Counterexample to C5 as stated: node 0 is active and selected, node 1 is idle. A
  shift-click on node 1 emits the lifted \<open>selectNode\<close> and then \<open>makeActive\<close>; once the
  first has been applied, nodes 0 and 1 are both active.
\<close>

theorem shift_click_two_active:
  "one_active (sample_plane [sample_node 0 True True, sample_node 1 False False]) \<and>
   step\<^sup>*\<^sup>* (sample_plane [sample_node 0 True True, sample_node 1 False False], [])
          (sample_plane [sample_node 0 True True, sample_node 1 True True], [MakeActive 1]) \<and>
   \<not> one_active (sample_plane [sample_node 0 True True, sample_node 1 True True])"
  using shift_click_steps(1)
  by (simp add: one_active_def sample_plane_def sample_node_def)

text \<open>
  Witness for C5: the same shift-click with both of its reducers applied; node 1 is then
  the one active node, at the front.
\<close>

theorem one_active_reachable_witness:
  "one_active (sample_plane [sample_node 0 True True, sample_node 1 False False]) \<and>
   step\<^sup>*\<^sup>* (sample_plane [sample_node 0 True True, sample_node 1 False False], [])
          (sample_plane [sample_node 1 True True, sample_node 0 True False], []) \<and>
   one_active (sample_plane [sample_node 1 True True, sample_node 0 True False])"
proof -
  have inv: "one_active (sample_plane [sample_node 0 True True, sample_node 1 False False])"
    by (simp add: one_active_def sample_plane_def sample_node_def)
  have path: "step\<^sup>*\<^sup>* (sample_plane [sample_node 0 True True, sample_node 1 False False], [])
          (sample_plane [sample_node 1 True True, sample_node 0 True False], [])"
    using shift_click_steps by (rule rtranclp.rtrancl_into_rtrancl)
  from one_active_reachable [OF inv path] inv path show ?thesis by simp
qed

end
